theory Spec2Isabelle
  imports Main "HOL-Library.Word" "HOL-Library.Sublist"
begin

section \<open>Go values\<close>

text \<open>
  Go's \<open>int\<close> on a 64-bit platform: a 64-bit machine integer whose arithmetic wraps, read
  as a signed number by \<open>sint\<close>.
  Comparisons of the source (\<open>>\<close>, \<open><\<close>) are the signed ones, \<open><s\<close>.
\<close>

type_synonym go_int = "64 word"

text \<open>\<open>len(xs)\<close> of a slice, as an \<open>int\<close>.\<close>

definition go_len :: "'a list \<Rightarrow> go_int" where
  "go_len xs = of_nat (length xs)"

section \<open>The functions of package strings that the source calls\<close>

text \<open>
  \<open>strings.Index(s, sep)\<close> for the one-byte separators the source passes (\<open>"."\<close> and
  \<open>":"\<close>): the position of the first occurrence, or \<open>-1\<close>. Positions never exceed the length
  of the string, so they are kept as mathematical integers.
\<close>

fun strings_Index :: "string \<Rightarrow> char \<Rightarrow> int" where
  "strings_Index [] c = - 1"
| "strings_Index (x # xs) c =
     (if x = c then 0
      else (let i = strings_Index xs c in if i = - 1 then - 1 else i + 1))"

text \<open>
  \<open>strings.Split(s, sep)\<close> for a one-byte separator (\<open>","\<close> and the newline in the source):
  the pieces between the separators; the empty string gives one empty piece.
\<close>

fun strings_Split :: "string \<Rightarrow> char \<Rightarrow> string list" where
  "strings_Split [] c = [[]]"
| "strings_Split (x # xs) c =
     (if x = c then [] # strings_Split xs c
      else (case strings_Split xs c of
              [] \<Rightarrow> [[x]]
            | w # ws \<Rightarrow> (x # w) # ws))"

definition strings_HasPrefix :: "string \<Rightarrow> string \<Rightarrow> bool" where
  "strings_HasPrefix s p = prefix p s"

definition strings_HasSuffix :: "string \<Rightarrow> string \<Rightarrow> bool" where
  "strings_HasSuffix s x = suffix x s"

definition strings_TrimSuffix :: "string \<Rightarrow> string \<Rightarrow> string" where
  "strings_TrimSuffix s x =
     (if strings_HasSuffix s x then take (length s - length x) s else s)"

section \<open>Helpers of option.go\<close>

text \<open>
  \<^verbatim>\<open>func parseExtension(s string) string {
      if i := strings.Index(s, "."); i != -1 { return s[i+1:] }
      return ""
  }\<close>
\<close>

definition parseExtension :: "string \<Rightarrow> string" where
  "parseExtension s =
     (let i = strings_Index s (CHR ''.'')
      in if i \<noteq> - 1 then drop (nat (i + 1)) s else [])"

fun StringsContains :: "string list \<Rightarrow> string \<Rightarrow> bool" where
  "StringsContains [] e = False"
| "StringsContains (v # s) e = (if v = e then True else StringsContains s e)"

fun IntsContains :: "go_int list \<Rightarrow> go_int \<Rightarrow> bool" where
  "IntsContains [] e = False"
| "IntsContains (v # s) e = (if v = e then True else IntsContains s e)"

subsection \<open>The decorator closures built by PrepareRunner\<close>

text \<open>
  The closure appended under \<open>opt.RemoveExtensions != ""\<close>; \<open>rexts\<close> is the list it
  captured.
\<close>

definition remove_extension_fn :: "string list \<Rightarrow> string \<Rightarrow> string" where
  "remove_extension_fn rexts s =
     (let ext = parseExtension s
      in if StringsContains rexts ext then strings_TrimSuffix s (CHR ''.'' # ext) else s)"

text \<open>The closure appended under \<open>opt.ExcludeExtensions != ""\<close>.\<close>

definition exclude_extension_fn :: "string list \<Rightarrow> string \<Rightarrow> string" where
  "exclude_extension_fn exexts s =
     (let ext = parseExtension s
      in if StringsContains exexts ext then [] else s)"

section \<open>Outcomes of a call\<close>

text \<open>
  A Go error value. \<open>errorf\<close> is \<open>fmt.Errorf\<close>, \<open>NumError\<close> is the error of
  \<open>strconv.Atoi\<close> (syntax or range, not told apart here), \<open>external\<close> is an error that a
  collaborator outside option.go returned.
\<close>

datatype error = errorf string | NumError string | external string

text \<open>
  A call of a function with result \<open>(T, error)\<close> returns a value (\<open>Ok\<close>), returns an error
  (\<open>Error\<close>), or panics (\<open>Panic\<close>).
\<close>

datatype 'a result = Ok 'a | Error error | Panic string

fun bind_result :: "'a result \<Rightarrow> ('a \<Rightarrow> 'b result) \<Rightarrow> 'b result" where
  "bind_result (Ok x) f = f x"
| "bind_result (Error e) f = Error e"
| "bind_result (Panic m) f = Panic m"

fun lift_sum :: "error + 'a \<Rightarrow> 'a result" where
  "lift_sum (Inl e) = Error e"
| "lift_sum (Inr x) = Ok x"

text \<open>A \<open>for ... range\<close> loop that returns at the first error and collects the values.\<close>

fun range_collect :: "('a \<Rightarrow> 'b result) \<Rightarrow> 'a list \<Rightarrow> 'b list result" where
  "range_collect f [] = Ok []"
| "range_collect f (x # xs) =
     bind_result (f x) (\<lambda>y. bind_result (range_collect f xs) (\<lambda>ys. Ok (y # ys)))"

section \<open>strconv\<close>

definition is_digit :: "char \<Rightarrow> bool" where
  "is_digit c = (48 \<le> (of_char c :: nat) \<and> (of_char c :: nat) \<le> 57)"

fun digits_value :: "nat \<Rightarrow> string \<Rightarrow> nat" where
  "digits_value n [] = n"
| "digits_value n (c # cs) = digits_value (n * 10 + (of_char c - 48)) cs"

text \<open>
  \<open>strconv.Atoi\<close>: an optional sign and at least one decimal digit, nothing else, and a
  value that fits a 64-bit \<open>int\<close>; otherwise a \<open>*NumError\<close>.
\<close>

definition strconv_Atoi :: "string \<Rightarrow> error + go_int" where
  "strconv_Atoi s =
     (let signed = (s \<noteq> [] \<and> (hd s = CHR ''-'' \<or> hd s = CHR ''+''));
          body = (if signed then tl s else s);
          v = (if s \<noteq> [] \<and> hd s = CHR ''-'' then - int (digits_value 0 body)
               else int (digits_value 0 body))
      in if body = [] \<or> \<not> list_all is_digit body then Inl (NumError s)
         else if v < - (2 ^ 63) \<or> 2 ^ 63 \<le> v then Inl (NumError s)
         else Inr (of_int v))"

text \<open>\<open>strconv.Itoa\<close> on the indices of a slice, which are never negative.\<close>

fun strconv_Itoa :: "nat \<Rightarrow> string" where
  "strconv_Itoa n =
     (if n < 10 then [char_of (48 + n)]
      else strconv_Itoa (n div 10) @ [char_of (48 + n mod 10)])"

declare strconv_Itoa.simps [simp del]

section \<open>Data of the program\<close>

text \<open>
  \<open>Option\<close> embeds \<open>InputOptions\<close>, \<open>OutputOptions\<close>, \<open>RequestOptions\<close>, \<open>ModeOptions\<close>
  and \<open>MiscOptions\<close>; Go promotes their fields, so the record is flat. A slice that the
  source compares with \<open>nil\<close> is an \<open>option\<close> (\<open>None\<close> is \<open>nil\<close>). \<open>Replaces\<close> is a Go
  map; it is kept as the list of its entries in the order a \<open>range\<close> loop visits them.
  Fields that PrepareRunner only copies into logging or into package-level variables that it
  never reads back (\<open>Debug\<close>, \<open>Quiet\<close>, \<open>NoBar\<close>, \<open>SimhashDistance\<close>) and fields it does not
  read (\<open>Depth\<close>, \<open>Client\<close>) are left out.
\<close>

record Option =
  ResumeFrom :: string
  URL :: string
  URLFile :: string
  Offset :: go_int
  Limit :: go_int
  Dictionaries :: "string list"
  Word :: string
  FilterRule :: string
  Rules :: "string list option"
  Extensions :: string
  ExcludeExtensions :: string
  RemoveExtensions :: string
  Uppercase :: bool
  Lowercase :: bool
  Prefixes :: "string list option"
  Suffixes :: "string list option"
  Replaces :: "(string \<times> string) list"
  Match :: string
  Filter :: string
  Extracts :: "string list"
  OutputFile :: string
  FuzzyFile :: string
  Fuzzy :: bool
  OutputProbe :: string
  Headers :: "string list"
  Force :: bool
  CheckOnly :: bool
  Recursive :: string
  CheckPeriod :: go_int
  ErrPeriod :: go_int
  BreakThreshold :: go_int
  BlackStatus :: string
  WhiteStatus :: string
  FuzzyStatus :: string
  Deadline :: go_int
  Timeout :: go_int
  PoolSize :: go_int
  Threads :: go_int
  Mod :: string

record Task =
  baseUrl :: string
  offset :: go_int
  total :: go_int
  depth :: go_int

text \<open>
  The fields of \<open>pkg.Statistor\<close> that PrepareRunner reads from a snapshot record.
\<close>

record Statistor =
  BaseUrl :: string
  Offset :: go_int
  ReqNumber :: go_int

text \<open>An open file: standard input, or the file of a name.\<close>

datatype os_File = os_Stdin | named_File string

text \<open>
  The fields of \<open>Runner\<close> that PrepareRunner fills, with the types their uses in option.go
  give them; \<open>'r\<close> is a compiled rule, \<open>'p\<close> a compiled expression. The progress bar and the
  channels carry no data at setup and are left out. \<open>Headers\<close> is the sequence of
  \<open>Add(key, value)\<close> calls.
\<close>

record ('r, 'p) Runner =
  Threads :: go_int
  PoolSize :: go_int
  Mod :: string
  Timeout :: go_int
  Deadline :: go_int
  Offset :: go_int
  Total :: go_int
  Fuzzy :: bool
  Force :: bool
  CheckOnly :: bool
  CheckPeriod :: go_int
  ErrPeriod :: go_int
  BreakThreshold :: go_int
  Wordlist :: "string list"
  Rules :: "'r list"
  Tasks :: "Task list"
  URLList :: "string list"
  Fns :: "(string \<Rightarrow> string) list"
  MatchExpr :: "'p option"
  FilterExpr :: "'p option"
  RecursiveExpr :: "'p option"
  Headers :: "(string \<times> string) list"
  Probes :: "string list"
  OutputFile :: "os_File option"
  FuzzyFile :: "os_File option"
  StatFile :: "os_File option"

text \<open>
  What PrepareRunner uses and option.go does not define: the package-level \<open>max\<close> of
  package internal, the collaborating packages, the file system, and the functions of package
  strings whose Unicode tables are out of scope here. \<open>regexp_valid\<close> tells whether
  \<open>regexp.MustCompile\<close> returns (it panics otherwise); \<open>mask_SpecialWords\<close> is the content
  of \<open>mask.SpecialWords\<close> on entry, and \<open>mask_Run\<close> reads \<open>mask.SpecialWords\<close> and
  \<open>mask.CustomWords\<close>, which PrepareRunner sets just before the call. Every collaborator
  is taken to return, with a value or with an error; \<open>regexp.MustCompile\<close>, whose contract
  is to panic, is the one exception. A file reads the same each time it is read during
  setup.
\<close>

record ('r, 'p) env =
  internal_max :: go_int
  pkg_LoadTemplates :: "error option"
  fingers_PresetExtracts :: "string \<Rightarrow> bool"
  regexp_valid :: "string \<Rightarrow> bool"
  ioutil_ReadFile :: "string \<Rightarrow> error + string"
  mask_SpecialWords :: "string \<rightharpoonup> string list"
  mask_Run :: "(string \<rightharpoonup> string list) \<Rightarrow> string list list \<Rightarrow> string \<Rightarrow> error + string list"
  rule_Compile :: "string \<Rightarrow> string \<Rightarrow> 'r list"
  pkg_ReadStatistors :: "string \<Rightarrow> error + Statistor list"
  os_Open :: "string \<Rightarrow> error + os_File"
  pkg_HasStdin :: bool
  ioutil_ReadAll :: "os_File \<Rightarrow> error + string"
  expr_Compile :: "string \<Rightarrow> error + 'p"
  files_NewFile :: "string \<Rightarrow> error + os_File"
  strings_ToUpper :: "string \<Rightarrow> string"
  strings_ToLower :: "string \<Rightarrow> string"
  strings_Replace :: "string \<Rightarrow> string \<Rightarrow> string \<Rightarrow> string"
  strings_TrimSpace :: "string \<Rightarrow> string"

section \<open>Slice expressions\<close>

text \<open>
  \<open>s[i:]\<close> and \<open>s[:i]\<close> on a string panic when the index is outside \<open>0 .. len(s)\<close>.
\<close>

definition go_slice_from :: "string \<Rightarrow> int \<Rightarrow> string result" where
  "go_slice_from s i =
     (if 0 \<le> i \<and> i \<le> int (length s) then Ok (drop (nat i) s)
      else Panic ''slice bounds out of range'')"

definition go_slice_to :: "string \<Rightarrow> int \<Rightarrow> string result" where
  "go_slice_to s i =
     (if 0 \<le> i \<and> i \<le> int (length s) then Ok (take (nat i) s)
      else Panic ''slice bounds out of range'')"

section \<open>PrepareRunner, in the order of the source\<close>

text \<open>\<open>func (opt *Option) Validate() bool\<close>\<close>

definition Validate :: "Option \<Rightarrow> bool" where
  "Validate opt = (if Uppercase opt \<and> Lowercase opt then False else True)"

definition loadFileToSlice :: "('r, 'p) env \<Rightarrow> string \<Rightarrow> string list result" where
  "loadFileToSlice env filename =
     bind_result (lift_sum (ioutil_ReadFile env filename)) (\<lambda>content.
       Ok (map (strings_TrimSpace env)
             (strings_Split (strings_TrimSpace env content) (CHR 0x0A))))"

text \<open>The struct literal \<open>r := &Runner{...}\<close>; the fields it does not name are zero.\<close>

definition new_Runner :: "Option \<Rightarrow> ('r, 'p) Runner" where
  "new_Runner opt =
     \<lparr> Runner.Threads = Option.Threads opt,
       PoolSize = Option.PoolSize opt,
       Mod = Option.Mod opt,
       Timeout = Option.Timeout opt,
       Deadline = Option.Deadline opt,
       Offset = Option.Offset opt,
       Total = Option.Limit opt,
       Fuzzy = Option.Fuzzy opt,
       Force = Option.Force opt,
       CheckOnly = Option.CheckOnly opt,
       CheckPeriod = Option.CheckPeriod opt,
       ErrPeriod = Option.ErrPeriod opt,
       BreakThreshold = Option.BreakThreshold opt,
       Wordlist = [],
       Rules = [],
       Tasks = [],
       URLList = [],
       Fns = [],
       MatchExpr = None,
       FilterExpr = None,
       RecursiveExpr = None,
       Headers = [],
       Probes = [],
       OutputFile = None,
       FuzzyFile = None,
       StatFile = None \<rparr>"

text \<open>\<open>err = pkg.LoadTemplates(); if err != nil { return nil, err }\<close>\<close>

definition load_templates :: "('r, 'p) env \<Rightarrow> unit result" where
  "load_templates env =
     (case pkg_LoadTemplates env of Some err \<Rightarrow> Error err | None \<Rightarrow> Ok ())"

text \<open>
  The loop over \<open>opt.Extracts\<close>: a name that is no preset goes to \<open>regexp.MustCompile\<close>,
  which panics on a pattern that does not parse. The registry \<open>pkg.Extractors\<close> it fills
  is not read again in PrepareRunner.
\<close>

fun prepare_extracts :: "('r, 'p) env \<Rightarrow> string list \<Rightarrow> unit result" where
  "prepare_extracts env [] = Ok ()"
| "prepare_extracts env (e # es) =
     (if fingers_PresetExtracts env e then prepare_extracts env es
      else if regexp_valid env e then prepare_extracts env es
      else Panic ''regexp: Compile'')"

text \<open>\<open>if opt.Force { r.BreakThreshold = max; r.CheckPeriod = max; r.ErrPeriod = max }\<close>\<close>

definition set_force :: "('r, 'p) env \<Rightarrow> Option \<Rightarrow> ('r, 'p) Runner \<Rightarrow> ('r, 'p) Runner" where
  "set_force env opt r =
     (if Option.Force opt
      then r\<lparr> BreakThreshold := internal_max env,
              CheckPeriod := internal_max env,
              ErrPeriod := internal_max env \<rparr>
      else r)"

text \<open>
  One of the three status options: every comma-separated piece goes through
  \<open>strconv.Atoi\<close>, and the first failure is returned. The numbers are appended to a
  package-level slice that PrepareRunner does not read.
\<close>

definition parse_status :: "string \<Rightarrow> go_int list result" where
  "parse_status s =
     (if s \<noteq> [] then range_collect (\<lambda>x. lift_sum (strconv_Atoi x)) (strings_Split s (CHR '',''))
      else Ok [])"

definition prepare_status :: "Option \<Rightarrow> unit result" where
  "prepare_status opt =
     bind_result (parse_status (BlackStatus opt)) (\<lambda>_.
     bind_result (parse_status (WhiteStatus opt)) (\<lambda>_.
     bind_result (parse_status (FuzzyStatus opt)) (\<lambda>_. Ok ())))"

text \<open>The word \<open>"{?" + "0" + "1" + ... + "}"\<close> built when \<open>opt.Word\<close> is empty.\<close>

definition default_word :: "nat \<Rightarrow> string" where
  "default_word n = ''{?'' @ concat (map strconv_Itoa [0..<n]) @ ''}''"

definition dotted_extensions :: "string \<Rightarrow> string list" where
  "dotted_extensions es =
     map (\<lambda>e. if \<not> strings_HasPrefix e ''.'' then ''.'' @ e else e)
       (strings_Split es (CHR '',''))"

text \<open>
  Lines 185 to 228: the dictionaries, the word with its suffix, prefix and extension masks,
  and the word list that \<open>mask.Run\<close> expands it to.
\<close>

definition prepare_wordlist ::
  "('r, 'p) env \<Rightarrow> Option \<Rightarrow> ('r, 'p) Runner \<Rightarrow> ('r, 'p) Runner result" where
  "prepare_wordlist env opt r =
     bind_result (range_collect (loadFileToSlice env) (Dictionaries opt)) (\<lambda>dicts.
       let w0 = (if Word opt = [] then default_word (length dicts) else Word opt);
           sw0 = mask_SpecialWords env;
           w1 = (case Suffixes opt of None \<Rightarrow> w0 | Some x \<Rightarrow> w0 @ ''{@suffix}'');
           sw1 = (case Suffixes opt of None \<Rightarrow> sw0 | Some x \<Rightarrow> sw0(''suffix'' \<mapsto> x));
           w2 = (case Prefixes opt of None \<Rightarrow> w1 | Some x \<Rightarrow> ''{@prefix}'' @ w1);
           sw2 = (case Prefixes opt of None \<Rightarrow> sw1 | Some x \<Rightarrow> sw1(''prefix'' \<mapsto> x));
           w3 = (if Extensions opt \<noteq> [] then w2 @ ''{@ext}'' else w2);
           sw3 = (if Extensions opt \<noteq> []
                  then sw2(''ext'' \<mapsto> dotted_extensions (Extensions opt)) else sw2)
       in bind_result (lift_sum (mask_Run env sw3 dicts w3)) (\<lambda>wl.
            Ok (r\<lparr> Wordlist := wl \<rparr>)))"

text \<open>Lines 236 to 250: the rule files, or the rule \<open>":"\<close> when only a filter is given.\<close>

definition prepare_rules ::
  "('r, 'p) env \<Rightarrow> Option \<Rightarrow> ('r, 'p) Runner \<Rightarrow> ('r, 'p) Runner result" where
  "prepare_rules env opt r =
     (case Option.Rules opt of
        Some fs \<Rightarrow>
          bind_result (range_collect (\<lambda>f. lift_sum (ioutil_ReadFile env f)) fs) (\<lambda>contents.
            Ok (r\<lparr> Rules := rule_Compile env (concat (map (\<lambda>c. c @ [CHR 0x0A]) contents))
                                (FilterRule opt) \<rparr>))
      | None \<Rightarrow>
          if FilterRule opt \<noteq> [] then Ok (r\<lparr> Rules := rule_Compile env '':'' (FilterRule opt) \<rparr>)
          else Ok r)"

text \<open>
  Lines 252 to 256:
  \<^verbatim>\<open>if len(r.Rules) > 0 { r.Total = len(r.Wordlist) * len(r.Rules) }
  else { r.Total = len(r.Wordlist) }\<close>
\<close>

definition declared_total :: "('r, 'p) Runner \<Rightarrow> ('r, 'p) Runner" where
  "declared_total r =
     (if 0 <s go_len (Rules r) then r\<lparr> Total := go_len (Wordlist r) * go_len (Rules r) \<rparr>
      else r\<lparr> Total := go_len (Wordlist r) \<rparr>)"

text \<open>
  Lines 258 to 262:
  \<^verbatim>\<open>if opt.Limit != 0 {
      if total := r.Offset + opt.Limit; total < r.Total { r.Total = total } }\<close>
\<close>

definition cap_limit :: "Option \<Rightarrow> ('r, 'p) Runner \<Rightarrow> ('r, 'p) Runner" where
  "cap_limit opt r =
     (if Limit opt \<noteq> 0
      then (let total = Runner.Offset r + Limit opt
            in if total <s Total r then r\<lparr> Total := total \<rparr> else r)
      else r)"

text \<open>The loop over the snapshot records read on resume (lines 273 to 275).\<close>

definition resume_tasks :: "go_int \<Rightarrow> Statistor list \<Rightarrow> Task list" where
  "resume_tasks tot stats =
     map (\<lambda>stat. \<lparr> baseUrl = BaseUrl stat,
                   offset = Statistor.Offset stat + ReqNumber stat,
                   total = tot,
                   depth = 0 \<rparr>) stats"

text \<open>The file that the URLs are read from, if any (lines 279 to 292).\<close>

definition open_input :: "('r, 'p) env \<Rightarrow> Option \<Rightarrow> os_File option result" where
  "open_input env opt =
     (if URL opt \<noteq> [] then Ok None
      else if URLFile opt \<noteq> []
      then bind_result (lift_sum (os_Open env (URLFile opt))) (\<lambda>f. Ok (Some f))
      else if pkg_HasStdin env then Ok (Some os_Stdin)
      else Ok None)"

text \<open>
  The branch \<open>opt.ResumeFrom != ""\<close> (lines 268 to 275): one task per snapshot record.
\<close>

definition tasks_from_resume ::
  "('r, 'p) env \<Rightarrow> Option \<Rightarrow> ('r, 'p) Runner \<Rightarrow> ('r, 'p) Runner result" where
  "tasks_from_resume env opt r =
     bind_result (lift_sum (pkg_ReadStatistors env (ResumeFrom opt))) (\<lambda>stats.
       Ok (r\<lparr> Tasks := resume_tasks (Total r) stats \<rparr>))"

text \<open>
  The other branch (lines 277 to 307). Where it reads a file, \<open>urls := strings.Split(...)\<close>
  declares a new variable, so the \<open>urls\<close> that \<open>opt.CheckOnly\<close> stores holds at most
  \<open>opt.URL\<close>.
\<close>

definition tasks_from_input ::
  "('r, 'p) env \<Rightarrow> Option \<Rightarrow> ('r, 'p) Runner \<Rightarrow> ('r, 'p) Runner result" where
  "tasks_from_input env opt r =
     bind_result (open_input env opt) (\<lambda>file.
       let urls = (if URL opt \<noteq> [] then [URL opt] else []);
           tasks0 = (if URL opt \<noteq> []
                     then [\<lparr> baseUrl = URL opt, offset = Option.Offset opt,
                              total = Total r, depth = 0 \<rparr>]
                     else [])
       in bind_result
            (case file of
               None \<Rightarrow> Ok tasks0
             | Some f \<Rightarrow>
                 bind_result (lift_sum (ioutil_ReadAll env f)) (\<lambda>content.
                   Ok (tasks0 @
                       map (\<lambda>u. \<lparr> baseUrl = strings_TrimSpace env u,
                                   offset = Option.Offset opt,
                                   total = Total r, depth = 0 \<rparr>)
                         (strings_Split (strings_TrimSpace env content) (CHR 0x0A)))))
            (\<lambda>tasks.
               Ok (if Option.CheckOnly opt
                   then r\<lparr> Tasks := tasks, URLList := urls, Total := go_len urls \<rparr>
                   else r\<lparr> Tasks := tasks \<rparr>)))"

text \<open>Lines 264 to 310.\<close>

definition prepare_tasks ::
  "('r, 'p) env \<Rightarrow> Option \<Rightarrow> ('r, 'p) Runner \<Rightarrow> ('r, 'p) Runner result" where
  "prepare_tasks env opt r =
     (if ResumeFrom opt \<noteq> [] then tasks_from_resume env opt r
      else tasks_from_input env opt r)"

text \<open>
  The closure appended under \<open>len(opt.Replaces) > 0\<close>: \<open>strings.Replace(s, k, v, -1)\<close> for
  every entry of the map.
\<close>

definition replace_fn :: "('r, 'p) env \<Rightarrow> (string \<times> string) list \<Rightarrow> string \<Rightarrow> string" where
  "replace_fn env reps s = foldl (\<lambda>t (k, v). strings_Replace env t k v) s reps"

text \<open>
  Lines 313 to 347, the decorator list. The remove-extension closure captures
  \<open>strings.Split(opt.ExcludeExtensions, ",")\<close>, as line 321 of the source does.
\<close>

definition prepare_fns :: "('r, 'p) env \<Rightarrow> Option \<Rightarrow> ('r, 'p) Runner \<Rightarrow> ('r, 'p) Runner" where
  "prepare_fns env opt r =
     r\<lparr> Fns := Fns r
          @ (if Uppercase opt then [strings_ToUpper env] else [])
          @ (if Lowercase opt then [strings_ToLower env] else [])
          @ (if RemoveExtensions opt \<noteq> []
             then [remove_extension_fn (strings_Split (ExcludeExtensions opt) (CHR '',''))]
             else [])
          @ (if ExcludeExtensions opt \<noteq> []
             then [exclude_extension_fn (strings_Split (ExcludeExtensions opt) (CHR '',''))]
             else [])
          @ (if 0 < length (Replaces opt) then [replace_fn env (Replaces opt)] else []) \<rparr>"

text \<open>
  Lines 350 to 370: the match and the filter expression are compiled when they are given,
  the recursive expression always; none is run.
\<close>

definition compile_match ::
  "('r, 'p) env \<Rightarrow> Option \<Rightarrow> ('r, 'p) Runner \<Rightarrow> ('r, 'p) Runner result" where
  "compile_match env opt r =
     (if Match opt \<noteq> []
      then bind_result (lift_sum (expr_Compile env (Match opt))) (\<lambda>exp.
             Ok (r\<lparr> MatchExpr := Some exp \<rparr>))
      else Ok r)"

definition compile_filter ::
  "('r, 'p) env \<Rightarrow> Option \<Rightarrow> ('r, 'p) Runner \<Rightarrow> ('r, 'p) Runner result" where
  "compile_filter env opt r =
     (if Filter opt \<noteq> []
      then bind_result (lift_sum (expr_Compile env (Filter opt))) (\<lambda>exp.
             Ok (r\<lparr> FilterExpr := Some exp \<rparr>))
      else Ok r)"

definition compile_recursive ::
  "('r, 'p) env \<Rightarrow> Option \<Rightarrow> ('r, 'p) Runner \<Rightarrow> ('r, 'p) Runner result" where
  "compile_recursive env opt r =
     bind_result (lift_sum (expr_Compile env (Recursive opt))) (\<lambda>exp.
       Ok (r\<lparr> RecursiveExpr := Some exp \<rparr>))"

definition prepare_exprs ::
  "('r, 'p) env \<Rightarrow> Option \<Rightarrow> ('r, 'p) Runner \<Rightarrow> ('r, 'p) Runner result" where
  "prepare_exprs env opt r =
     bind_result (compile_match env opt r) (\<lambda>r1.
     bind_result (compile_filter env opt r1) (\<lambda>r2.
       compile_recursive env opt r2))"

text \<open>
  One round of the loop over \<open>opt.Headers\<close>:
  \<^verbatim>\<open>i := strings.Index(h, ":")
  if i == -1 { logs.Log.Warn("invalid header") } else { r.Headers.Add(h[:i], h[i+2:]) }\<close>
\<close>

definition add_header :: "string \<Rightarrow> ('r, 'p) Runner \<Rightarrow> ('r, 'p) Runner result" where
  "add_header h r =
     (let i = strings_Index h (CHR '':'')
      in if i = - 1 then Ok r
         else bind_result (go_slice_to h i) (\<lambda>k.
              bind_result (go_slice_from h (i + 2)) (\<lambda>v.
                Ok (r\<lparr> Headers := Runner.Headers r @ [(k, v)] \<rparr>))))"

fun prepare_headers :: "string list \<Rightarrow> ('r, 'p) Runner \<Rightarrow> ('r, 'p) Runner result" where
  "prepare_headers [] r = Ok r"
| "prepare_headers (h # hs) r = bind_result (add_header h r) (prepare_headers hs)"

text \<open>Lines 382 to 404: the probes and the three output files.\<close>

definition set_probes :: "Option \<Rightarrow> ('r, 'p) Runner \<Rightarrow> ('r, 'p) Runner" where
  "set_probes opt r =
     (if OutputProbe opt \<noteq> []
      then r\<lparr> Probes := strings_Split (OutputProbe opt) (CHR '','') \<rparr> else r)"

definition open_output_file ::
  "('r, 'p) env \<Rightarrow> Option \<Rightarrow> ('r, 'p) Runner \<Rightarrow> ('r, 'p) Runner result" where
  "open_output_file env opt r =
     (if Option.OutputFile opt \<noteq> []
      then bind_result (lift_sum (files_NewFile env (Option.OutputFile opt))) (\<lambda>f.
             Ok (r\<lparr> OutputFile := Some f \<rparr>))
      else Ok r)"

definition open_fuzzy_file ::
  "('r, 'p) env \<Rightarrow> Option \<Rightarrow> ('r, 'p) Runner \<Rightarrow> ('r, 'p) Runner result" where
  "open_fuzzy_file env opt r =
     (if Option.FuzzyFile opt \<noteq> []
      then bind_result (lift_sum (files_NewFile env (Option.FuzzyFile opt))) (\<lambda>f.
             Ok (r\<lparr> FuzzyFile := Some f \<rparr>))
      else Ok r)"

definition open_stat_file ::
  "('r, 'p) env \<Rightarrow> ('r, 'p) Runner \<Rightarrow> ('r, 'p) Runner result" where
  "open_stat_file env r =
     bind_result (lift_sum (files_NewFile env ''stat.json'')) (\<lambda>f.
       Ok (r\<lparr> StatFile := Some f \<rparr>))"

definition prepare_output ::
  "('r, 'p) env \<Rightarrow> Option \<Rightarrow> ('r, 'p) Runner \<Rightarrow> ('r, 'p) Runner result" where
  "prepare_output env opt r =
     bind_result (open_output_file env opt (set_probes opt r)) (\<lambda>r2.
     bind_result (open_fuzzy_file env opt r2) (\<lambda>r3.
       open_stat_file env r3))"

text \<open>
  The part of PrepareRunner up to line 256, where the declared total is set, and the whole
  function. Logging, the progress bar and the writes to package-level variables that
  PrepareRunner never reads (\<open>pkg.Extractors\<close>, \<open>pkg.Distance\<close>, the status slices,
  \<open>pkg.DefaultStatistor\<close>) have no part in its result and are not modelled.
\<close>

definition prepare_total ::
  "('r, 'p) env \<Rightarrow> Option \<Rightarrow> ('r, 'p) Runner result" where
  "prepare_total env opt =
     (if \<not> Validate opt then Error (errorf ''validate failed'')
      else bind_result (load_templates env) (\<lambda>_.
           bind_result (prepare_extracts env (Extracts opt)) (\<lambda>_.
           bind_result (prepare_status opt) (\<lambda>_.
           bind_result (prepare_wordlist env opt (set_force env opt (new_Runner opt))) (\<lambda>r1.
           bind_result (prepare_rules env opt r1) (\<lambda>r2.
             Ok (declared_total r2)))))))"

definition PrepareRunner ::
  "('r, 'p) env \<Rightarrow> Option \<Rightarrow> ('r, 'p) Runner result" where
  "PrepareRunner env opt =
     bind_result (prepare_total env opt) (\<lambda>r3.
     bind_result (prepare_tasks env opt (cap_limit opt r3)) (\<lambda>r4.
     bind_result (prepare_exprs env opt (prepare_fns env opt r4)) (\<lambda>r5.
     bind_result (prepare_headers (Option.Headers opt) r5) (\<lambda>r6.
       prepare_output env opt r6))))"

section \<open>A concrete run\<close>

text \<open>
  The option values that the \<open>default:\<close> tags of the source give when no flag is passed
  (check period 200, error period 10, break threshold 20, and so on).
\<close>

definition default_Option :: Option where
  "default_Option =
     \<lparr> ResumeFrom = [], URL = [], URLFile = [], Option.Offset = 0, Limit = 0,
       Dictionaries = [], Word = [], FilterRule = [], Option.Rules = None,
       Extensions = [], ExcludeExtensions = [], RemoveExtensions = [],
       Uppercase = False, Lowercase = False, Prefixes = None, Suffixes = None,
       Replaces = [], Match = [], Filter = [], Extracts = [],
       Option.OutputFile = [], Option.FuzzyFile = [], Option.Fuzzy = False,
       OutputProbe = [], Option.Headers = [],
       Option.Force = False, Option.CheckOnly = False,
       Recursive = ''current.IsDir()'',
       Option.CheckPeriod = 200, Option.ErrPeriod = 10, Option.BreakThreshold = 20,
       BlackStatus = ''404,400,410'', WhiteStatus = ''200'',
       FuzzyStatus = ''403,500,501,502,503'',
       Option.Deadline = 999999, Option.Timeout = 2, Option.PoolSize = 5,
       Option.Threads = 20, Option.Mod = ''path'' \<rparr>"

text \<open>
  A small world to run PrepareRunner in: every file reads as one word, the mask expands to
  two words, a rule source compiles to one rule per line feed, the snapshot file holds the
  records given as \<open>stats\<close>, an expression compiles unless it is \<open>"("\<close>, and so does a
  regular expression.
\<close>

definition example_env :: "Statistor list \<Rightarrow> (string, string) env" where
  "example_env stats =
     \<lparr> internal_max = 2147483647,
       pkg_LoadTemplates = None,
       fingers_PresetExtracts = (\<lambda>e. False),
       regexp_valid = (\<lambda>e. e \<noteq> ''(''),
       ioutil_ReadFile = (\<lambda>f. Inr ''admin''),
       mask_SpecialWords = Map.empty,
       mask_Run = (\<lambda>sw dicts w. Inr [''admin'', ''index.php'']),
       rule_Compile = (\<lambda>src flt. filter (\<lambda>l. l \<noteq> []) (strings_Split src (CHR 0x0A))),
       pkg_ReadStatistors = (\<lambda>f. Inr stats),
       os_Open = (\<lambda>f. Inr (named_File f)),
       pkg_HasStdin = False,
       ioutil_ReadAll = (\<lambda>f. Inr ''http://b''),
       expr_Compile = (\<lambda>e. if e = ''('' then Inl (external ''unexpected token'') else Inr e),
       files_NewFile = (\<lambda>f. Inr (named_File f)),
       strings_ToUpper = (\<lambda>s. s),
       strings_ToLower = (\<lambda>s. s),
       strings_Replace = (\<lambda>s k v. s),
       strings_TrimSpace = (\<lambda>s. s) \<rparr>"

section \<open>Facts about the string functions\<close>

lemma strings_Index_absent: "strings_Index s c = - 1 \<longleftrightarrow> c \<notin> set s"
proof (induction s)
  case Nil
  show ?case by simp
next
  case (Cons x xs)
  have nonneg: "strings_Index xs c \<noteq> - 1 \<Longrightarrow> 0 \<le> strings_Index xs c"
  proof (induction xs)
    case Nil
    then show ?case by simp
  next
    case (Cons y ys)
    then show ?case by (auto simp: Let_def split: if_splits)
  qed
  show ?case using Cons nonneg by (auto simp: Let_def)
qed

lemma strings_Index_first:
  "c \<notin> set pre \<Longrightarrow> strings_Index (pre @ c # post) c = int (length pre)"
  by (induction pre) (auto simp: Let_def)

lemma strings_Index_range:
  "strings_Index s c \<noteq> - 1 \<Longrightarrow> 0 \<le> strings_Index s c \<and> strings_Index s c < int (length s)"
  by (induction s) (auto simp: Let_def split: if_splits)

lemma StringsContains_set: "StringsContains s e \<longleftrightarrow> e \<in> set s"
  by (induction s) auto

lemma parseExtension_after_first_dot:
  "CHR ''.'' \<notin> set pre \<Longrightarrow> parseExtension (pre @ CHR ''.'' # post) = post"
proof -
  assume nodot: "CHR ''.'' \<notin> set pre"
  have "nat (int (length pre) + 1) = Suc (length pre)" by simp
  with nodot show ?thesis
    by (simp add: parseExtension_def strings_Index_first Let_def del: of_nat_Suc)
qed

lemma parseExtension_no_dot: "CHR ''.'' \<notin> set s \<Longrightarrow> parseExtension s = []"
  using strings_Index_absent [of s "CHR ''.''"] by (simp add: parseExtension_def Let_def)

lemma split_at_first:
  "c \<in> set s \<Longrightarrow> \<exists>pre post. s = pre @ c # post \<and> c \<notin> set pre"
  by (metis split_list_first)

lemma exclude_extension_fn_eq:
  "exclude_extension_fn exts s = (if parseExtension s \<in> set exts then [] else s)"
  by (simp add: exclude_extension_fn_def Let_def StringsContains_set)

lemma remove_extension_fn_eq:
  "remove_extension_fn exts s =
     (if parseExtension s \<in> set exts then strings_TrimSuffix s (CHR ''.'' # parseExtension s)
      else s)"
  by (simp add: remove_extension_fn_def Let_def StringsContains_set)

lemma parseExtension_splits:
  assumes "CHR ''.'' \<in> set s"
  shows "\<exists>pre. CHR ''.'' \<notin> set pre \<and> s = pre @ CHR ''.'' # parseExtension s"
proof -
  from split_at_first [OF assms] obtain pre post
    where s: "s = pre @ CHR ''.'' # post" and pre: "CHR ''.'' \<notin> set pre"
    by (elim exE conjE)
  have e: "parseExtension s = post"
    unfolding s using pre by (rule parseExtension_after_first_dot)
  have eq: "s = pre @ CHR ''.'' # parseExtension s"
    by (subst e) (rule s)
  from pre eq have "CHR ''.'' \<notin> set pre \<and> s = pre @ CHR ''.'' # parseExtension s"
    by (rule conjI)
  then show ?thesis by (rule exI)
qed

lemma parseExtension_example: "parseExtension ''a.tar.gz'' = ''tar.gz''"
  by (simp add: parseExtension_def)

text \<open>The slice \<open>s[i+1:]\<close> of \<open>parseExtension\<close> is always within bounds.\<close>

lemma parseExtension_slice_in_bounds:
  assumes "strings_Index s (CHR ''.'') \<noteq> - 1"
  shows "go_slice_from s (strings_Index s (CHR ''.'') + 1) = Ok (parseExtension s)"
proof -
  from assms have "0 \<le> strings_Index s (CHR ''.'') \<and> strings_Index s (CHR ''.'') < int (length s)"
    by (rule strings_Index_range)
  with assms show ?thesis
    by (simp add: go_slice_from_def parseExtension_def Let_def)
qed

text \<open>
  The slice \<open>h[i+2:]\<close> of the header loop is out of bounds exactly when the first colon is
  the last byte of the header.
\<close>

lemma add_header_panics_iff:
  "(\<exists>p. add_header h r = Panic p)
     \<longleftrightarrow> strings_Index h (CHR '':'') \<noteq> - 1 \<and> strings_Index h (CHR '':'') + 1 = int (length h)"
proof (cases "strings_Index h (CHR '':'') = - 1")
  case True
  then show ?thesis by (simp add: add_header_def)
next
  case False
  then have "0 \<le> strings_Index h (CHR '':'') \<and> strings_Index h (CHR '':'') < int (length h)"
    by (rule strings_Index_range)
  with False show ?thesis
    by (auto simp: add_header_def Let_def go_slice_to_def go_slice_from_def)
qed

section \<open>parseExtension and the first dot\<close>

text \<open>
  Claim C9. \<open>parseExtension\<close> returns what follows the first dot of its argument, not the
  last: a string with a dot is some dot-free prefix, the dot, and the result; a string
  without a dot gives the empty string; \<open>"a.tar.gz"\<close> gives \<open>"tar.gz"\<close>. The exclude and
  the remove closure both look this multi-part extension up in the list they captured.
\<close>

theorem parseExtension_after_first_dot_not_last:
  "(CHR ''.'' \<in> set s \<longrightarrow>
      (\<exists>pre. CHR ''.'' \<notin> set pre \<and> s = pre @ CHR ''.'' # parseExtension s))
   \<and> (CHR ''.'' \<notin> set s \<longrightarrow> parseExtension s = [])
   \<and> parseExtension ''a.tar.gz'' = ''tar.gz''
   \<and> exclude_extension_fn exts s = (if parseExtension s \<in> set exts then [] else s)
   \<and> remove_extension_fn exts s =
       (if parseExtension s \<in> set exts
        then strings_TrimSuffix s (CHR ''.'' # parseExtension s) else s)"
proof (intro conjI impI)
  assume "CHR ''.'' \<in> set s"
  then show "\<exists>pre. CHR ''.'' \<notin> set pre \<and> s = pre @ CHR ''.'' # parseExtension s"
    by (rule parseExtension_splits)
next
  assume "CHR ''.'' \<notin> set s"
  then show "parseExtension s = []" by (rule parseExtension_no_dot)
next
  show "parseExtension ''a.tar.gz'' = ''tar.gz''" by (rule parseExtension_example)
next
  show "exclude_extension_fn exts s = (if parseExtension s \<in> set exts then [] else s)"
    by (rule exclude_extension_fn_eq)
next
  show "remove_extension_fn exts s =
       (if parseExtension s \<in> set exts
        then strings_TrimSuffix s (CHR ''.'' # parseExtension s) else s)"
    by (rule remove_extension_fn_eq)
qed

theorem parseExtension_after_first_dot_not_last_witness:
  "CHR ''.'' \<in> set ''a.tar.gz''
   \<and> (\<exists>pre. CHR ''.'' \<notin> set pre \<and> ''a.tar.gz'' = pre @ CHR ''.'' # ''tar.gz'')
   \<and> CHR ''.'' \<notin> set ''admin''
   \<and> parseExtension ''admin'' = []
   \<and> exclude_extension_fn [''tar.gz''] ''a.tar.gz'' = []
   \<and> exclude_extension_fn [''gz''] ''a.tar.gz'' = ''a.tar.gz''
   \<and> remove_extension_fn [''gz''] ''a.tar.gz'' = ''a.tar.gz''"
proof -
  have dot: "CHR ''.'' \<in> set ''a.tar.gz''" by simp
  have nodot: "CHR ''.'' \<notin> set ''admin''" by simp
  have ex: "parseExtension ''a.tar.gz'' = ''tar.gz''" by (rule parseExtension_example)
  note a = parseExtension_after_first_dot_not_last [of "''a.tar.gz''" "[''tar.gz'']"]
  note b = parseExtension_after_first_dot_not_last [of "''admin''" "[]"]
  note c = parseExtension_after_first_dot_not_last [of "''a.tar.gz''" "[''gz'']"]
  from a dot have 1: "\<exists>pre. CHR ''.'' \<notin> set pre \<and> ''a.tar.gz'' = pre @ CHR ''.'' # ''tar.gz''"
    unfolding ex by blast
  from b nodot have 2: "parseExtension ''admin'' = []" by blast
  from a have 3: "exclude_extension_fn [''tar.gz''] ''a.tar.gz'' = []"
    unfolding ex by simp
  from c have 4: "exclude_extension_fn [''gz''] ''a.tar.gz'' = ''a.tar.gz''"
    unfolding ex by simp
  from c have 5: "remove_extension_fn [''gz''] ''a.tar.gz'' = ''a.tar.gz''"
    unfolding ex by simp
  from dot 1 nodot 2 3 4 5 show ?thesis by (intro conjI)
qed

section \<open>Running PrepareRunner on concrete options\<close>

lemmas run_defs = PrepareRunner_def prepare_total_def Validate_def load_templates_def
  prepare_status_def parse_status_def strconv_Atoi_def is_digit_def prepare_wordlist_def
  loadFileToSlice_def default_word_def dotted_extensions_def prepare_rules_def
  declared_total_def cap_limit_def resume_tasks_def open_input_def prepare_tasks_def
  tasks_from_resume_def tasks_from_input_def prepare_fns_def prepare_exprs_def
  compile_match_def compile_filter_def compile_recursive_def add_header_def
  go_slice_from_def go_slice_to_def prepare_output_def set_probes_def open_output_file_def
  open_fuzzy_file_def open_stat_file_def set_force_def new_Runner_def go_len_def
  word_sless_alt
  example_env_def default_Option_def

section \<open>Validation of the case flags\<close>

text \<open>
  Claim C8. With both \<open>Uppercase\<close> and \<open>Lowercase\<close> set, PrepareRunner returns the error
  \<open>"validate failed"\<close>, whatever the environment; with at most one of them set,
  \<open>Validate\<close> returns true.
\<close>

theorem conflicting_case_flags_rejected:
  "(Uppercase opt \<and> Lowercase opt \<longrightarrow>
      PrepareRunner env opt = Error (errorf ''validate failed''))
   \<and> (\<not> (Uppercase opt \<and> Lowercase opt) \<longrightarrow> Validate opt)"
  by (simp add: PrepareRunner_def prepare_total_def Validate_def)

theorem conflicting_case_flags_rejected_witness:
  "Uppercase (default_Option\<lparr>Uppercase := True, Lowercase := True\<rparr>)
   \<and> Lowercase (default_Option\<lparr>Uppercase := True, Lowercase := True\<rparr>)
   \<and> PrepareRunner (example_env []) (default_Option\<lparr>Uppercase := True, Lowercase := True\<rparr>)
       = (Error (errorf ''validate failed'') :: (string, string) Runner result)
   \<and> \<not> Lowercase (default_Option\<lparr>Uppercase := True\<rparr>)
   \<and> Validate (default_Option\<lparr>Uppercase := True\<rparr>)"
  using conflicting_case_flags_rejected
          [of "default_Option\<lparr>Uppercase := True, Lowercase := True\<rparr>" "example_env []"]
        conflicting_case_flags_rejected
          [of "default_Option\<lparr>Uppercase := True\<rparr>" "example_env []"]
  by (simp add: default_Option_def)

section \<open>Header parsing\<close>

text \<open>
  Claim C10, at the header \<open>"Key:"\<close>. The colon is at index 3 and the string has length 4,
  so \<open>h[i+2:]\<close> asks for index 5 and the slice expression panics: PrepareRunner does not
  return.
\<close>

theorem header_colon_last_panics:
  "strings_Index ''Key:'' (CHR '':'') = 3
   \<and> int (length ''Key:'') < 3 + 2
   \<and> go_slice_from ''Key:'' (3 + 2) = Panic ''slice bounds out of range''
   \<and> PrepareRunner (example_env [])
        (default_Option\<lparr>URL := ''http://a'', Option.Headers := [''Key:'']\<rparr>)
       = (Panic ''slice bounds out of range'' :: (string, string) Runner result)"
  by (simp add: run_defs)

section \<open>The remove-extension decorator\<close>

text \<open>
  Claim C1, at two configurations. With \<open>--remove-extension php\<close> alone, the one decorator
  leaves \<open>"index.php"\<close> as it is, although \<open>php\<close> is in the remove list. With
  \<open>--exclude-extension jsp\<close> added, the first decorator (the remove closure) still leaves
  \<open>"index.php"\<close> and strips \<open>"a.jsp"\<close>, whose extension is in the exclude list only.
\<close>

theorem remove_extension_reads_exclude_list:
  "(\<exists>r f. PrepareRunner (example_env [])
            (default_Option\<lparr>URL := ''http://a'', RemoveExtensions := ''php''\<rparr>)
          = (Ok r :: (string, string) Runner result)
     \<and> Fns r = [f]
     \<and> parseExtension ''index.php'' \<in> set (strings_Split ''php'' (CHR '',''))
     \<and> f ''index.php'' = ''index.php'')
   \<and> (\<exists>r f g. PrepareRunner (example_env [])
            (default_Option\<lparr>URL := ''http://a'', RemoveExtensions := ''php'',
                ExcludeExtensions := ''jsp''\<rparr>)
          = (Ok r :: (string, string) Runner result)
     \<and> Fns r = [f, g]
     \<and> parseExtension ''a.jsp'' \<notin> set (strings_Split ''php'' (CHR '',''))
     \<and> f ''index.php'' = ''index.php''
     \<and> f ''a.jsp'' = ''a'')"
  by (simp add: run_defs parseExtension_def remove_extension_fn_def strings_TrimSuffix_def
        strings_HasSuffix_def Let_def suffix_to_prefix)

section \<open>The steps of PrepareRunner, one field at a time\<close>

lemma bind_result_OkE:
  assumes "bind_result m f = Ok y"
  obtains x where "m = Ok x" and "f x = Ok y"
  using assms by (cases m) simp_all

lemma lift_sum_OkE:
  assumes "lift_sum x = Ok y"
  obtains "x = Inr y"
  using assms by (cases x) simp_all

lemma optional_step_shape:
  assumes step: "(if c then bind_result (lift_sum x) (\<lambda>v. Ok (upd (Some v) r)) else Ok r) = Ok r'"
    and same: "upd cur r = r"
  shows "\<exists>m. r' = upd m r"
proof (cases c)
  case True
  with step have "bind_result (lift_sum x) (\<lambda>v. Ok (upd (Some v) r)) = Ok r'" by simp
  then obtain v where "Ok (upd (Some v) r) = Ok r'" by (rule bind_result_OkE)
  then have "r' = upd (Some v) r" by simp
  then show ?thesis by (rule exI)
next
  case False
  with step have "r' = r" by simp
  with same have "r' = upd cur r" by simp
  then show ?thesis by (rule exI)
qed

lemma compile_match_shape:
  assumes "compile_match env opt r = Ok r'"
  shows "\<exists>m. r' = r\<lparr>MatchExpr := m\<rparr>"
proof (rule optional_step_shape [where upd = "\<lambda>m r. r\<lparr>MatchExpr := m\<rparr>" and cur = "MatchExpr r"])
  show "(if Match opt \<noteq> []
         then bind_result (lift_sum (expr_Compile env (Match opt)))
                (\<lambda>v. Ok (r\<lparr>MatchExpr := Some v\<rparr>))
         else Ok r) = Ok r'"
    using assms unfolding compile_match_def .
  show "r\<lparr>MatchExpr := MatchExpr r\<rparr> = r" by simp
qed

lemma compile_filter_shape:
  assumes "compile_filter env opt r = Ok r'"
  shows "\<exists>m. r' = r\<lparr>FilterExpr := m\<rparr>"
proof (rule optional_step_shape [where upd = "\<lambda>m r. r\<lparr>FilterExpr := m\<rparr>" and cur = "FilterExpr r"])
  show "(if Filter opt \<noteq> []
         then bind_result (lift_sum (expr_Compile env (Filter opt)))
                (\<lambda>v. Ok (r\<lparr>FilterExpr := Some v\<rparr>))
         else Ok r) = Ok r'"
    using assms unfolding compile_filter_def .
  show "r\<lparr>FilterExpr := FilterExpr r\<rparr> = r" by simp
qed

lemma compile_recursive_shape:
  assumes "compile_recursive env opt r = Ok r'"
  shows "\<exists>m. r' = r\<lparr>RecursiveExpr := m\<rparr>"
proof -
  from assms obtain v where "Ok (r\<lparr>RecursiveExpr := Some v\<rparr>) = Ok r'"
    unfolding compile_recursive_def by (rule bind_result_OkE)
  then have "r' = r\<lparr>RecursiveExpr := Some v\<rparr>" by simp
  then show ?thesis by (rule exI)
qed

lemma prepare_exprs_shape:
  assumes "prepare_exprs env opt r = Ok r'"
  shows "\<exists>m f x. r' = r\<lparr>MatchExpr := m, FilterExpr := f, RecursiveExpr := x\<rparr>"
proof -
  from assms obtain r1 where
    a: "compile_match env opt r = Ok r1" and
    b: "bind_result (compile_filter env opt r1) (compile_recursive env opt) = Ok r'"
    unfolding prepare_exprs_def by (rule bind_result_OkE)
  from b obtain r2 where c: "compile_filter env opt r1 = Ok r2"
    and d: "compile_recursive env opt r2 = Ok r'"
    by (rule bind_result_OkE)
  from compile_match_shape [OF a] obtain m where m: "r1 = r\<lparr>MatchExpr := m\<rparr>" by (elim exE)
  from compile_filter_shape [OF c] obtain f where f: "r2 = r1\<lparr>FilterExpr := f\<rparr>" by (elim exE)
  from compile_recursive_shape [OF d] obtain x where x: "r' = r2\<lparr>RecursiveExpr := x\<rparr>"
    by (elim exE)
  have "r' = r\<lparr>MatchExpr := m, FilterExpr := f, RecursiveExpr := x\<rparr>"
    unfolding x f m ..
  then show ?thesis by (intro exI)
qed

lemma add_header_shape:
  assumes "add_header h r = Ok r'"
  shows "\<exists>hs. r' = r\<lparr>Headers := hs\<rparr>"
proof (cases "strings_Index h (CHR '':'') = - 1")
  case True
  with assms have "r' = r" by (simp add: add_header_def)
  then have "r' = r\<lparr>Headers := Runner.Headers r\<rparr>" by simp
  then show ?thesis by (rule exI)
next
  case False
  with assms have
    "bind_result (go_slice_to h (strings_Index h (CHR '':''))) (\<lambda>k.
       bind_result (go_slice_from h (strings_Index h (CHR '':'') + 2)) (\<lambda>v.
         Ok (r\<lparr>Headers := Runner.Headers r @ [(k, v)]\<rparr>))) = Ok r'"
    by (simp add: add_header_def Let_def)
  then obtain k where
    "bind_result (go_slice_from h (strings_Index h (CHR '':'') + 2)) (\<lambda>v.
         Ok (r\<lparr>Headers := Runner.Headers r @ [(k, v)]\<rparr>)) = Ok r'"
    by (rule bind_result_OkE)
  then obtain v where "Ok (r\<lparr>Headers := Runner.Headers r @ [(k, v)]\<rparr>) = Ok r'"
    by (rule bind_result_OkE)
  then have "r' = r\<lparr>Headers := Runner.Headers r @ [(k, v)]\<rparr>" by simp
  then show ?thesis by (rule exI)
qed

lemma prepare_headers_shape:
  "prepare_headers hs r = Ok r' \<Longrightarrow> \<exists>ks. r' = r\<lparr>Headers := ks\<rparr>"
proof (induction hs arbitrary: r)
  case Nil
  then have "r' = r\<lparr>Headers := Runner.Headers r\<rparr>" by simp
  then show ?case by (rule exI)
next
  case (Cons h hs)
  from Cons.prems have "bind_result (add_header h r) (prepare_headers hs) = Ok r'" by simp
  then obtain r1 where a: "add_header h r = Ok r1" and b: "prepare_headers hs r1 = Ok r'"
    by (rule bind_result_OkE)
  from add_header_shape [OF a] obtain k1 where k1: "r1 = r\<lparr>Headers := k1\<rparr>" by (elim exE)
  from Cons.IH [OF b] obtain k2 where k2: "r' = r1\<lparr>Headers := k2\<rparr>" by (elim exE)
  have "r' = r\<lparr>Headers := k2\<rparr>" unfolding k2 k1 by simp
  then show ?case by (rule exI)
qed

lemma set_probes_shape: "\<exists>p. set_probes opt r = r\<lparr>Probes := p\<rparr>"
proof (cases "OutputProbe opt = []")
  case True
  then have "set_probes opt r = r\<lparr>Probes := Probes r\<rparr>" by (simp add: set_probes_def)
  then show ?thesis by (rule exI)
next
  case False
  then have "set_probes opt r = r\<lparr>Probes := strings_Split (OutputProbe opt) (CHR '','')\<rparr>"
    by (simp add: set_probes_def)
  then show ?thesis by (rule exI)
qed

lemma open_output_file_shape:
  assumes "open_output_file env opt r = Ok r'"
  shows "\<exists>m. r' = r\<lparr>OutputFile := m\<rparr>"
proof (rule optional_step_shape [where upd = "\<lambda>m r. r\<lparr>OutputFile := m\<rparr>" and cur = "Runner.OutputFile r"])
  show "(if Option.OutputFile opt \<noteq> []
         then bind_result (lift_sum (files_NewFile env (Option.OutputFile opt)))
                (\<lambda>v. Ok (r\<lparr>OutputFile := Some v\<rparr>))
         else Ok r) = Ok r'"
    using assms unfolding open_output_file_def .
  show "r\<lparr>OutputFile := Runner.OutputFile r\<rparr> = r" by simp
qed

lemma open_fuzzy_file_shape:
  assumes "open_fuzzy_file env opt r = Ok r'"
  shows "\<exists>m. r' = r\<lparr>FuzzyFile := m\<rparr>"
proof (rule optional_step_shape [where upd = "\<lambda>m r. r\<lparr>FuzzyFile := m\<rparr>" and cur = "Runner.FuzzyFile r"])
  show "(if Option.FuzzyFile opt \<noteq> []
         then bind_result (lift_sum (files_NewFile env (Option.FuzzyFile opt)))
                (\<lambda>v. Ok (r\<lparr>FuzzyFile := Some v\<rparr>))
         else Ok r) = Ok r'"
    using assms unfolding open_fuzzy_file_def .
  show "r\<lparr>FuzzyFile := Runner.FuzzyFile r\<rparr> = r" by simp
qed

lemma open_stat_file_shape:
  assumes "open_stat_file env r = Ok r'"
  shows "\<exists>m. r' = r\<lparr>StatFile := m\<rparr>"
proof -
  from assms obtain v where "Ok (r\<lparr>StatFile := Some v\<rparr>) = Ok r'"
    unfolding open_stat_file_def by (rule bind_result_OkE)
  then have "r' = r\<lparr>StatFile := Some v\<rparr>" by simp
  then show ?thesis by (rule exI)
qed

lemma prepare_output_shape:
  assumes "prepare_output env opt r = Ok r'"
  shows "\<exists>p out fz st. r' = r\<lparr>Probes := p, OutputFile := out, FuzzyFile := fz, StatFile := st\<rparr>"
proof -
  from assms obtain r2 where
    a: "open_output_file env opt (set_probes opt r) = Ok r2" and
    b: "bind_result (open_fuzzy_file env opt r2) (open_stat_file env) = Ok r'"
    unfolding prepare_output_def by (rule bind_result_OkE)
  from b obtain r3 where c: "open_fuzzy_file env opt r2 = Ok r3"
    and d: "open_stat_file env r3 = Ok r'"
    by (rule bind_result_OkE)
  from set_probes_shape [of opt r] obtain p where p: "set_probes opt r = r\<lparr>Probes := p\<rparr>"
    by (elim exE)
  from open_output_file_shape [OF a] obtain out where
    out: "r2 = (set_probes opt r)\<lparr>OutputFile := out\<rparr>" by (elim exE)
  from open_fuzzy_file_shape [OF c] obtain fz where fz: "r3 = r2\<lparr>FuzzyFile := fz\<rparr>"
    by (elim exE)
  from open_stat_file_shape [OF d] obtain st where st: "r' = r3\<lparr>StatFile := st\<rparr>"
    by (elim exE)
  have "r' = r\<lparr>Probes := p, OutputFile := out, FuzzyFile := fz, StatFile := st\<rparr>"
    unfolding st fz out p ..
  then show ?thesis by (intro exI)
qed

text \<open>What PrepareRunner returns, as the runner after the task step with later fields set.\<close>

lemma PrepareRunner_Ok:
  assumes "PrepareRunner env opt = Ok r"
  obtains r3 r4 m f x hs p out fz st where
    "prepare_total env opt = Ok r3" and
    "prepare_tasks env opt (cap_limit opt r3) = Ok r4" and
    "r = (prepare_fns env opt r4)
           \<lparr>MatchExpr := m, FilterExpr := f, RecursiveExpr := x, Headers := hs,
            Probes := p, OutputFile := out, FuzzyFile := fz, StatFile := st\<rparr>"
proof -
  from assms obtain r3 where
    t: "prepare_total env opt = Ok r3" and
    a: "bind_result (prepare_tasks env opt (cap_limit opt r3)) (\<lambda>r4.
          bind_result (prepare_exprs env opt (prepare_fns env opt r4)) (\<lambda>r5.
          bind_result (prepare_headers (Option.Headers opt) r5) (\<lambda>r6.
            prepare_output env opt r6))) = Ok r"
    unfolding PrepareRunner_def by (rule bind_result_OkE)
  from a obtain r4 where
    k: "prepare_tasks env opt (cap_limit opt r3) = Ok r4" and
    b: "bind_result (prepare_exprs env opt (prepare_fns env opt r4)) (\<lambda>r5.
          bind_result (prepare_headers (Option.Headers opt) r5) (\<lambda>r6.
            prepare_output env opt r6)) = Ok r"
    by (rule bind_result_OkE)
  from b obtain r5 where
    e: "prepare_exprs env opt (prepare_fns env opt r4) = Ok r5" and
    c: "bind_result (prepare_headers (Option.Headers opt) r5) (\<lambda>r6.
            prepare_output env opt r6) = Ok r"
    by (rule bind_result_OkE)
  from c obtain r6 where
    h: "prepare_headers (Option.Headers opt) r5 = Ok r6" and
    d: "prepare_output env opt r6 = Ok r"
    by (rule bind_result_OkE)
  from prepare_exprs_shape [OF e] obtain m f x where
    r5: "r5 = (prepare_fns env opt r4)\<lparr>MatchExpr := m, FilterExpr := f, RecursiveExpr := x\<rparr>"
    by (elim exE)
  from prepare_headers_shape [OF h] obtain hs where r6: "r6 = r5\<lparr>Headers := hs\<rparr>"
    by (elim exE)
  from prepare_output_shape [OF d] obtain p out fz st where
    r: "r = r6\<lparr>Probes := p, OutputFile := out, FuzzyFile := fz, StatFile := st\<rparr>"
    by (elim exE)
  have "r = (prepare_fns env opt r4)
           \<lparr>MatchExpr := m, FilterExpr := f, RecursiveExpr := x, Headers := hs,
            Probes := p, OutputFile := out, FuzzyFile := fz, StatFile := st\<rparr>"
    unfolding r r6 r5 ..
  with t k show ?thesis by (rule that)
qed

lemma prepare_wordlist_shape:
  assumes "prepare_wordlist env opt r = Ok r'"
  shows "\<exists>wl. r' = r\<lparr>Wordlist := wl\<rparr>"
proof -
  from assms obtain dicts where
    "(let w0 = (if Word opt = [] then default_word (length dicts) else Word opt);
           sw0 = mask_SpecialWords env;
           w1 = (case Suffixes opt of None \<Rightarrow> w0 | Some x \<Rightarrow> w0 @ ''{@suffix}'');
           sw1 = (case Suffixes opt of None \<Rightarrow> sw0 | Some x \<Rightarrow> sw0(''suffix'' \<mapsto> x));
           w2 = (case Prefixes opt of None \<Rightarrow> w1 | Some x \<Rightarrow> ''{@prefix}'' @ w1);
           sw2 = (case Prefixes opt of None \<Rightarrow> sw1 | Some x \<Rightarrow> sw1(''prefix'' \<mapsto> x));
           w3 = (if Extensions opt \<noteq> [] then w2 @ ''{@ext}'' else w2);
           sw3 = (if Extensions opt \<noteq> []
                  then sw2(''ext'' \<mapsto> dotted_extensions (Extensions opt)) else sw2)
       in bind_result (lift_sum (mask_Run env sw3 dicts w3)) (\<lambda>wl.
            Ok (r\<lparr> Wordlist := wl \<rparr>))) = Ok r'"
    unfolding prepare_wordlist_def by (rule bind_result_OkE)
  then obtain sw w where
    "bind_result (lift_sum (mask_Run env sw dicts w)) (\<lambda>wl. Ok (r\<lparr> Wordlist := wl \<rparr>)) = Ok r'"
    unfolding Let_def by (rule that)
  then obtain wl where "Ok (r\<lparr> Wordlist := wl \<rparr>) = Ok r'" by (rule bind_result_OkE)
  then have "r' = r\<lparr> Wordlist := wl \<rparr>" by simp
  then show ?thesis by (rule exI)
qed

lemma prepare_rules_shape:
  assumes "prepare_rules env opt r = Ok r'"
  shows "\<exists>rs. r' = r\<lparr>Rules := rs\<rparr>"
proof (cases "Option.Rules opt")
  case None
  show ?thesis
  proof (cases "FilterRule opt = []")
    case True
    with None assms have "r' = r" by (simp add: prepare_rules_def)
    then have "r' = r\<lparr>Rules := Rules r\<rparr>" by simp
    then show ?thesis by (rule exI)
  next
    case False
    with None assms have "r' = r\<lparr>Rules := rule_Compile env '':'' (FilterRule opt)\<rparr>"
      by (simp add: prepare_rules_def)
    then show ?thesis by (rule exI)
  qed
next
  case (Some fs)
  with assms have
    "bind_result (range_collect (\<lambda>f. lift_sum (ioutil_ReadFile env f)) fs) (\<lambda>contents.
       Ok (r\<lparr> Rules := rule_Compile env (concat (map (\<lambda>c. c @ [CHR 0x0A]) contents))
                                (FilterRule opt) \<rparr>)) = Ok r'"
    by (simp add: prepare_rules_def)
  then obtain contents where
    "Ok (r\<lparr> Rules := rule_Compile env (concat (map (\<lambda>c. c @ [CHR 0x0A]) contents))
                                (FilterRule opt) \<rparr>) = Ok r'"
    by (rule bind_result_OkE)
  then have "r' = r\<lparr> Rules := rule_Compile env (concat (map (\<lambda>c. c @ [CHR 0x0A]) contents))
                                (FilterRule opt) \<rparr>"
    by simp
  then show ?thesis by (rule exI)
qed

lemma prepare_total_Ok:
  assumes "prepare_total env opt = Ok r3"
  obtains wl rs where
    "r3 = declared_total ((set_force env opt (new_Runner opt))\<lparr>Wordlist := wl, Rules := rs\<rparr>)"
proof -
  from assms have v: "Validate opt"
    unfolding prepare_total_def by (cases "Validate opt") simp_all
  with assms have
    "bind_result (load_templates env) (\<lambda>_.
       bind_result (prepare_extracts env (Extracts opt)) (\<lambda>_.
       bind_result (prepare_status opt) (\<lambda>_.
       bind_result (prepare_wordlist env opt (set_force env opt (new_Runner opt))) (\<lambda>r1.
       bind_result (prepare_rules env opt r1) (\<lambda>r2.
         Ok (declared_total r2)))))) = Ok r3"
    by (simp add: prepare_total_def)
  then obtain u1 where
    "bind_result (prepare_extracts env (Extracts opt)) (\<lambda>_.
       bind_result (prepare_status opt) (\<lambda>_.
       bind_result (prepare_wordlist env opt (set_force env opt (new_Runner opt))) (\<lambda>r1.
       bind_result (prepare_rules env opt r1) (\<lambda>r2.
         Ok (declared_total r2))))) = Ok r3"
    by (rule bind_result_OkE)
  then obtain u2 where
    "bind_result (prepare_status opt) (\<lambda>_.
       bind_result (prepare_wordlist env opt (set_force env opt (new_Runner opt))) (\<lambda>r1.
       bind_result (prepare_rules env opt r1) (\<lambda>r2.
         Ok (declared_total r2)))) = Ok r3"
    by (rule bind_result_OkE)
  then obtain u3 where
    "bind_result (prepare_wordlist env opt (set_force env opt (new_Runner opt))) (\<lambda>r1.
       bind_result (prepare_rules env opt r1) (\<lambda>r2.
         Ok (declared_total r2))) = Ok r3"
    by (rule bind_result_OkE)
  then obtain r1 where
    r1: "prepare_wordlist env opt (set_force env opt (new_Runner opt)) = Ok r1" and
    "bind_result (prepare_rules env opt r1) (\<lambda>r2. Ok (declared_total r2)) = Ok r3"
    by (rule bind_result_OkE)
  then obtain r2 where
    r2: "prepare_rules env opt r1 = Ok r2" and "Ok (declared_total r2) = Ok r3"
    by (elim bind_result_OkE)
  then have r3: "r3 = declared_total r2" by simp
  from prepare_wordlist_shape [OF r1] obtain wl where
    w: "r1 = (set_force env opt (new_Runner opt))\<lparr>Wordlist := wl\<rparr>" by (elim exE)
  from prepare_rules_shape [OF r2] obtain rs where rs: "r2 = r1\<lparr>Rules := rs\<rparr>" by (elim exE)
  have "r3 = declared_total ((set_force env opt (new_Runner opt))\<lparr>Wordlist := wl, Rules := rs\<rparr>)"
    unfolding r3 rs w ..
  then show ?thesis by (rule that)
qed

lemma declared_total_shape:
  "declared_total r =
     r\<lparr>Total := go_len (Wordlist r) * (if 0 <s go_len (Rules r) then go_len (Rules r) else 1)\<rparr>"
  by (simp add: declared_total_def)

lemma cap_limit_shape: "\<exists>t. cap_limit opt r = r\<lparr>Total := t\<rparr>"
proof (cases "Limit opt \<noteq> 0 \<and> Runner.Offset r + Limit opt <s Total r")
  case True
  then have "cap_limit opt r = r\<lparr>Total := Runner.Offset r + Limit opt\<rparr>"
    by (simp add: cap_limit_def Let_def)
  then show ?thesis by (rule exI)
next
  case False
  then have "cap_limit opt r = r" by (auto simp: cap_limit_def Let_def)
  then have "cap_limit opt r = r\<lparr>Total := Total r\<rparr>" by simp
  then show ?thesis by (rule exI)
qed

lemma cap_limit_no_limit: "Limit opt = 0 \<Longrightarrow> cap_limit opt r = r"
  by (simp add: cap_limit_def)

lemma tasks_from_resume_Ok:
  assumes "tasks_from_resume env opt r = Ok r'"
  obtains stats where "pkg_ReadStatistors env (ResumeFrom opt) = Inr stats"
    and "r' = r\<lparr>Tasks := resume_tasks (Total r) stats\<rparr>"
proof -
  from assms obtain stats where
    a: "lift_sum (pkg_ReadStatistors env (ResumeFrom opt)) = Ok stats" and
    b: "Ok (r\<lparr>Tasks := resume_tasks (Total r) stats\<rparr>) = Ok r'"
    unfolding tasks_from_resume_def by (rule bind_result_OkE)
  from a have "pkg_ReadStatistors env (ResumeFrom opt) = Inr stats" by (rule lift_sum_OkE)
  moreover from b have "r' = r\<lparr>Tasks := resume_tasks (Total r) stats\<rparr>" by simp
  ultimately show ?thesis by (rule that)
qed

lemma tasks_from_input_Ok:
  assumes "tasks_from_input env opt r = Ok r'"
  obtains tasks where
    "r' = (if Option.CheckOnly opt
           then r\<lparr>Tasks := tasks, URLList := (if URL opt \<noteq> [] then [URL opt] else []),
                  Total := go_len (if URL opt \<noteq> [] then [URL opt] else [])\<rparr>
           else r\<lparr>Tasks := tasks\<rparr>)"
proof -
  from assms obtain inp where
    "(let urls = (if URL opt \<noteq> [] then [URL opt] else []);
           tasks0 = (if URL opt \<noteq> []
                     then [\<lparr> baseUrl = URL opt, offset = Option.Offset opt,
                              total = Total r, depth = 0 \<rparr>]
                     else [])
       in bind_result
            (case inp of
               None \<Rightarrow> Ok tasks0
             | Some f \<Rightarrow>
                 bind_result (lift_sum (ioutil_ReadAll env f)) (\<lambda>content.
                   Ok (tasks0 @
                       map (\<lambda>u. \<lparr> baseUrl = strings_TrimSpace env u,
                                   offset = Option.Offset opt,
                                   total = Total r, depth = 0 \<rparr>)
                         (strings_Split (strings_TrimSpace env content) (CHR 0x0A)))))
            (\<lambda>tasks.
               Ok (if Option.CheckOnly opt
                   then r\<lparr> Tasks := tasks, URLList := urls, Total := go_len urls \<rparr>
                   else r\<lparr> Tasks := tasks \<rparr>))) = Ok r'"
    unfolding tasks_from_input_def by (rule bind_result_OkE)
  then obtain m where
    "bind_result m
       (\<lambda>tasks.
               Ok (if Option.CheckOnly opt
                   then r\<lparr> Tasks := tasks, URLList := (if URL opt \<noteq> [] then [URL opt] else []),
                          Total := go_len (if URL opt \<noteq> [] then [URL opt] else []) \<rparr>
                   else r\<lparr> Tasks := tasks \<rparr>)) = Ok r'"
    unfolding Let_def by (rule that)
  then obtain tasks where
    "Ok (if Option.CheckOnly opt
         then r\<lparr> Tasks := tasks, URLList := (if URL opt \<noteq> [] then [URL opt] else []),
                Total := go_len (if URL opt \<noteq> [] then [URL opt] else []) \<rparr>
         else r\<lparr> Tasks := tasks \<rparr>) = Ok r'"
    by (rule bind_result_OkE)
  then have
    "r' = (if Option.CheckOnly opt
           then r\<lparr>Tasks := tasks, URLList := (if URL opt \<noteq> [] then [URL opt] else []),
                  Total := go_len (if URL opt \<noteq> [] then [URL opt] else [])\<rparr>
           else r\<lparr>Tasks := tasks\<rparr>)"
    by (simp only: result.inject)
  then show ?thesis by (rule that)
qed

lemma prepare_tasks_shape:
  assumes "prepare_tasks env opt r = Ok r'"
  shows "\<exists>ts ul t. r' = r\<lparr>Tasks := ts, URLList := ul, Total := t\<rparr>"
proof (cases "ResumeFrom opt = []")
  case False
  with assms have "tasks_from_resume env opt r = Ok r'" by (simp add: prepare_tasks_def)
  then obtain stats where "r' = r\<lparr>Tasks := resume_tasks (Total r) stats\<rparr>"
    by (rule tasks_from_resume_Ok)
  then have "r' = r\<lparr>Tasks := resume_tasks (Total r) stats, URLList := URLList r, Total := Total r\<rparr>"
    by simp
  then show ?thesis by (intro exI)
next
  case True
  with assms have "tasks_from_input env opt r = Ok r'" by (simp add: prepare_tasks_def)
  then obtain tasks where r':
    "r' = (if Option.CheckOnly opt
           then r\<lparr>Tasks := tasks, URLList := (if URL opt \<noteq> [] then [URL opt] else []),
                  Total := go_len (if URL opt \<noteq> [] then [URL opt] else [])\<rparr>
           else r\<lparr>Tasks := tasks\<rparr>)"
    by (rule tasks_from_input_Ok)
  show ?thesis
  proof (cases "Option.CheckOnly opt")
    case True
    with r' have "r' = r\<lparr>Tasks := tasks, URLList := (if URL opt \<noteq> [] then [URL opt] else []),
                  Total := go_len (if URL opt \<noteq> [] then [URL opt] else [])\<rparr>"
      by (simp only: if_True)
    then show ?thesis by (intro exI)
  next
    case False
    with r' have "r' = r\<lparr>Tasks := tasks\<rparr>" by (simp only: if_False)
    then have "r' = r\<lparr>Tasks := tasks, URLList := URLList r, Total := Total r\<rparr>" by simp
    then show ?thesis by (intro exI)
  qed
qed

lemma prepare_tasks_Total:
  assumes "prepare_tasks env opt r = Ok r'"
    and "ResumeFrom opt \<noteq> [] \<or> \<not> Option.CheckOnly opt"
  shows "Total r' = Total r"
proof (cases "ResumeFrom opt = []")
  case False
  with assms have "tasks_from_resume env opt r = Ok r'" by (simp add: prepare_tasks_def)
  then obtain stats where "r' = r\<lparr>Tasks := resume_tasks (Total r) stats\<rparr>"
    by (rule tasks_from_resume_Ok)
  then show ?thesis by simp
next
  case True
  with assms have "tasks_from_input env opt r = Ok r'" and "\<not> Option.CheckOnly opt"
    by (simp_all add: prepare_tasks_def)
  then obtain tasks where "r' = r\<lparr>Tasks := tasks\<rparr>"
    by (elim tasks_from_input_Ok) (simp only: if_False)
  then show ?thesis by simp
qed

lemma sint_of_nat_small:
  assumes "n < 2 ^ 63"
  shows "sint (of_nat n :: 64 word) = int n"
proof -
  have "sint (of_nat n :: 64 word) = signed_take_bit 63 (int n)"
    by (simp add: signed_of_nat)
  also have "\<dots> = int n"
    using assms by (intro signed_take_bit_int_eq_self) simp_all
  finally show ?thesis .
qed

lemma go_len_positive: "length xs < 2 ^ 63 \<Longrightarrow> (0 <s go_len xs) = (xs \<noteq> [])"
  by (simp add: go_len_def word_sless_alt sint_of_nat_small)

lemma cap_limit_keeps:
  "BreakThreshold (cap_limit opt r) = BreakThreshold r"
  "CheckPeriod (cap_limit opt r) = CheckPeriod r"
  "ErrPeriod (cap_limit opt r) = ErrPeriod r"
  "Wordlist (cap_limit opt r) = Wordlist r"
  "Rules (cap_limit opt r) = Rules r"
  "Fns (cap_limit opt r) = Fns r"
  by (simp_all add: cap_limit_def Let_def)

lemma declared_total_keeps:
  "BreakThreshold (declared_total r) = BreakThreshold r"
  "CheckPeriod (declared_total r) = CheckPeriod r"
  "ErrPeriod (declared_total r) = ErrPeriod r"
  "Wordlist (declared_total r) = Wordlist r"
  "Rules (declared_total r) = Rules r"
  "Fns (declared_total r) = Fns r"
  by (simp_all add: declared_total_def)

text \<open>The runner that PrepareRunner returns, field by field.\<close>

lemma PrepareRunner_fields:
  assumes "PrepareRunner env opt = Ok r"
  obtains r3 r4 where
    "prepare_total env opt = Ok r3" and
    "prepare_tasks env opt (cap_limit opt r3) = Ok r4" and
    "Total r = Total r4" and "Tasks r = Tasks r4" and
    "Wordlist r = Wordlist r3" and "Rules r = Rules r3" and
    "Total r3 = go_len (Wordlist r3) * (if 0 <s go_len (Rules r3) then go_len (Rules r3) else 1)" and
    "BreakThreshold r = BreakThreshold (set_force env opt (new_Runner opt))" and
    "CheckPeriod r = CheckPeriod (set_force env opt (new_Runner opt))" and
    "ErrPeriod r = ErrPeriod (set_force env opt (new_Runner opt))" and
    "Fns r = Fns (prepare_fns env opt (new_Runner opt))"
proof -
  from assms obtain r3 r4 m f x hs p out fz st where
    t: "prepare_total env opt = Ok r3" and
    k: "prepare_tasks env opt (cap_limit opt r3) = Ok r4" and
    r: "r = (prepare_fns env opt r4)
           \<lparr>MatchExpr := m, FilterExpr := f, RecursiveExpr := x, Headers := hs,
            Probes := p, OutputFile := out, FuzzyFile := fz, StatFile := st\<rparr>"
    by (rule PrepareRunner_Ok)
  from t obtain wl rs where
    r3: "r3 = declared_total ((set_force env opt (new_Runner opt))\<lparr>Wordlist := wl, Rules := rs\<rparr>)"
    by (rule prepare_total_Ok)
  from prepare_tasks_shape [OF k] obtain ts ul tt where
    r4: "r4 = (cap_limit opt r3)\<lparr>Tasks := ts, URLList := ul, Total := tt\<rparr>"
    by (elim exE)
  have newfns: "Fns (new_Runner opt) = []"
    by (simp add: new_Runner_def)
  then have force: "Fns (set_force env opt (new_Runner opt)) = []"
    by (simp add: set_force_def)
  have 1: "Total r = Total r4" unfolding r by (simp add: prepare_fns_def)
  have 2: "Tasks r = Tasks r4" unfolding r by (simp add: prepare_fns_def)
  have 3: "Wordlist r = Wordlist r3"
    unfolding r r4 by (simp add: prepare_fns_def cap_limit_keeps)
  have 4: "Rules r = Rules r3"
    unfolding r r4 by (simp add: prepare_fns_def cap_limit_keeps)
  have 5: "Total r3 = go_len (Wordlist r3) * (if 0 <s go_len (Rules r3) then go_len (Rules r3) else 1)"
    unfolding r3 declared_total_shape by simp
  have 6: "BreakThreshold r = BreakThreshold (set_force env opt (new_Runner opt))"
    unfolding r r4 r3 by (simp add: prepare_fns_def cap_limit_keeps declared_total_keeps)
  have 7: "CheckPeriod r = CheckPeriod (set_force env opt (new_Runner opt))"
    unfolding r r4 r3 by (simp add: prepare_fns_def cap_limit_keeps declared_total_keeps)
  have 8: "ErrPeriod r = ErrPeriod (set_force env opt (new_Runner opt))"
    unfolding r r4 r3 by (simp add: prepare_fns_def cap_limit_keeps declared_total_keeps)
  have 9: "Fns r = Fns (prepare_fns env opt (new_Runner opt))"
    unfolding r r4 r3
    by (simp add: prepare_fns_def cap_limit_keeps declared_total_keeps force newfns)
  from t k 1 2 3 4 5 6 7 8 9 show ?thesis by (rule that)
qed

section \<open>Force mode and the breaker parameters\<close>

text \<open>
  Claim C5. In the runner that PrepareRunner returns, \<open>Force\<close> makes the break threshold,
  the check period and the error period equal to the package constant \<open>max\<close>, whatever
  the three options say; without \<open>Force\<close> they are the three options (200, 10 and 20 by
  the default tags, as the second run below shows).
\<close>

theorem force_sets_breaker_to_max:
  assumes "PrepareRunner env opt = Ok r"
  shows "(Option.Force opt \<longrightarrow>
            BreakThreshold r = internal_max env \<and> CheckPeriod r = internal_max env
            \<and> ErrPeriod r = internal_max env)
       \<and> (\<not> Option.Force opt \<longrightarrow>
            BreakThreshold r = Option.BreakThreshold opt
            \<and> CheckPeriod r = Option.CheckPeriod opt
            \<and> ErrPeriod r = Option.ErrPeriod opt)"
proof -
  from assms have
    "BreakThreshold r = BreakThreshold (set_force env opt (new_Runner opt))
     \<and> CheckPeriod r = CheckPeriod (set_force env opt (new_Runner opt))
     \<and> ErrPeriod r = ErrPeriod (set_force env opt (new_Runner opt))"
    by (rule PrepareRunner_fields) (intro conjI; assumption)
  then show ?thesis by (simp add: set_force_def new_Runner_def)
qed

theorem force_sets_breaker_to_max_witness:
  "(\<exists>r. PrepareRunner (example_env [])
           (default_Option\<lparr>URL := ''http://a'', Option.Force := True\<rparr>)
         = (Ok r :: (string, string) Runner result)
       \<and> BreakThreshold r = 2147483647 \<and> CheckPeriod r = 2147483647
       \<and> ErrPeriod r = 2147483647)
   \<and> (\<exists>r. PrepareRunner (example_env []) (default_Option\<lparr>URL := ''http://a''\<rparr>)
         = (Ok r :: (string, string) Runner result)
       \<and> BreakThreshold r = 20 \<and> CheckPeriod r = 200 \<and> ErrPeriod r = 10)"
proof -
  have "\<exists>r. PrepareRunner (example_env [])
           (default_Option\<lparr>URL := ''http://a'', Option.Force := True\<rparr>)
         = (Ok r :: (string, string) Runner result)"
    by (simp add: run_defs)
  then obtain r1 :: "(string, string) Runner" where
    r1: "PrepareRunner (example_env [])
           (default_Option\<lparr>URL := ''http://a'', Option.Force := True\<rparr>) = Ok r1"
    by (elim exE)
  have "\<exists>r. PrepareRunner (example_env []) (default_Option\<lparr>URL := ''http://a''\<rparr>)
         = (Ok r :: (string, string) Runner result)"
    by (simp add: run_defs)
  then obtain r2 :: "(string, string) Runner" where
    r2: "PrepareRunner (example_env []) (default_Option\<lparr>URL := ''http://a''\<rparr>) = Ok r2"
    by (elim exE)
  from force_sets_breaker_to_max [OF r1]
  have f1: "BreakThreshold r1 = 2147483647 \<and> CheckPeriod r1 = 2147483647
       \<and> ErrPeriod r1 = 2147483647"
    by (simp add: example_env_def default_Option_def)
  from force_sets_breaker_to_max [OF r2]
  have f2: "BreakThreshold r2 = 20 \<and> CheckPeriod r2 = 200 \<and> ErrPeriod r2 = 10"
    by (simp add: example_env_def default_Option_def)
  from r1 f1 r2 f2 show ?thesis by blast
qed

section \<open>Resume\<close>

lemma PrepareRunner_resume:
  assumes ok: "PrepareRunner env opt = Ok r" and res: "ResumeFrom opt \<noteq> []"
  obtains stats where "pkg_ReadStatistors env (ResumeFrom opt) = Inr stats"
    and "Tasks r = resume_tasks (Total r) stats"
proof -
  from ok obtain r3 r4 where
    k: "prepare_tasks env opt (cap_limit opt r3) = Ok r4" and
    t: "Total r = Total r4" and ts: "Tasks r = Tasks r4"
    by (rule PrepareRunner_fields)
  from k res have "tasks_from_resume env opt (cap_limit opt r3) = Ok r4"
    by (simp add: prepare_tasks_def)
  then obtain stats where
    s: "pkg_ReadStatistors env (ResumeFrom opt) = Inr stats" and
    r4: "r4 = (cap_limit opt r3)\<lparr>Tasks := resume_tasks (Total (cap_limit opt r3)) stats\<rparr>"
    by (rule tasks_from_resume_Ok)
  have "Tasks r4 = resume_tasks (Total r4) stats" by (subst (1 2) r4) simp
  with t ts have "Tasks r = resume_tasks (Total r) stats" by simp
  with s show ?thesis by (rule that)
qed

text \<open>
  The steps up to the declared total never read the snapshot file: whatever
  \<open>pkg.ReadStatistors\<close> would return, they give the same runner.
\<close>

lemma prepare_extracts_ignores_snapshots:
  "prepare_extracts (env\<lparr>pkg_ReadStatistors := g\<rparr>) es = prepare_extracts env es"
  by (induction es) simp_all

lemma loadFileToSlice_ignores_snapshots:
  "loadFileToSlice (env\<lparr>pkg_ReadStatistors := g\<rparr>) = loadFileToSlice env"
  by (rule ext) (simp add: loadFileToSlice_def)

lemma prepare_wordlist_ignores_snapshots:
  "prepare_wordlist (env\<lparr>pkg_ReadStatistors := g\<rparr>) opt r = prepare_wordlist env opt r"
  by (simp add: prepare_wordlist_def loadFileToSlice_ignores_snapshots)

lemma prepare_rules_ignores_snapshots:
  "prepare_rules (env\<lparr>pkg_ReadStatistors := g\<rparr>) opt r = prepare_rules env opt r"
  by (cases "Option.Rules opt") (simp_all add: prepare_rules_def)

lemma prepare_total_ignores_snapshots:
  "prepare_total (env\<lparr>pkg_ReadStatistors := g\<rparr>) opt = prepare_total env opt"
  by (simp add: prepare_total_def load_templates_def set_force_def
        prepare_extracts_ignores_snapshots prepare_wordlist_ignores_snapshots
        prepare_rules_ignores_snapshots)

lemma PrepareRunner_resume_total:
  assumes ok: "PrepareRunner env opt = Ok r" and res: "ResumeFrom opt \<noteq> []"
  obtains r3 stats where
    "prepare_total env opt = Ok r3" and
    "pkg_ReadStatistors env (ResumeFrom opt) = Inr stats" and
    "Tasks r = resume_tasks (Total (cap_limit opt r3)) stats" and
    "Total r = Total (cap_limit opt r3)"
proof -
  from ok obtain r3 r4 where
    p: "prepare_total env opt = Ok r3" and
    k: "prepare_tasks env opt (cap_limit opt r3) = Ok r4" and
    t: "Total r = Total r4" and ts: "Tasks r = Tasks r4"
    by (rule PrepareRunner_fields)
  from k res have "tasks_from_resume env opt (cap_limit opt r3) = Ok r4"
    by (simp add: prepare_tasks_def)
  then obtain stats where
    s: "pkg_ReadStatistors env (ResumeFrom opt) = Inr stats" and
    r4: "r4 = (cap_limit opt r3)\<lparr>Tasks := resume_tasks (Total (cap_limit opt r3)) stats\<rparr>"
    by (rule tasks_from_resume_Ok)
  have a: "Tasks r4 = resume_tasks (Total (cap_limit opt r3)) stats" by (subst r4) simp
  have b: "Total r4 = Total (cap_limit opt r3)" by (subst r4) simp
  from a ts have 1: "Tasks r = resume_tasks (Total (cap_limit opt r3)) stats" by simp
  from b t have 2: "Total r = Total (cap_limit opt r3)" by simp
  from p s 1 2 show ?thesis by (rule that)
qed

text \<open>
  Claim C3. On resume, every snapshot record read gives one task, in order, whose offset is
  the record's \<open>Offset + ReqNumber\<close> (Go's \<open>+\<close> on \<open>int\<close>) and whose total is the
  declared total of the run: the total that the steps before the snapshot file is read give
  (lines 252 to 262, the limit applied), which is also the total of the runner returned and
  stays the same whatever the snapshot file holds. The record with offset 500 and 50
  requests gives the offset 550.
\<close>

theorem resume_offset_is_offset_plus_reqNumber:
  assumes "PrepareRunner env opt = Ok r" and "ResumeFrom opt \<noteq> []"
  shows "\<exists>r3 stats. prepare_total env opt = Ok r3
           \<and> pkg_ReadStatistors env (ResumeFrom opt) = Inr stats
           \<and> Tasks r = map (\<lambda>stat. \<lparr> baseUrl = BaseUrl stat,
                                       offset = Statistor.Offset stat + ReqNumber stat,
                                       total = Total (cap_limit opt r3),
                                       depth = 0 \<rparr>) stats
           \<and> Total r = Total (cap_limit opt r3)
           \<and> (Limit opt = 0 \<longrightarrow> Total (cap_limit opt r3) = Total r3)
           \<and> (\<forall>g. prepare_total (env\<lparr>pkg_ReadStatistors := g\<rparr>) opt = Ok r3)"
proof -
  from assms obtain r3 stats where
    p: "prepare_total env opt = Ok r3" and
    s: "pkg_ReadStatistors env (ResumeFrom opt) = Inr stats" and
    t: "Tasks r = resume_tasks (Total (cap_limit opt r3)) stats" and
    tot: "Total r = Total (cap_limit opt r3)"
    by (rule PrepareRunner_resume_total)
  have m: "Tasks r = map (\<lambda>stat. \<lparr> baseUrl = BaseUrl stat,
                                       offset = Statistor.Offset stat + ReqNumber stat,
                                       total = Total (cap_limit opt r3),
                                       depth = 0 \<rparr>) stats"
    using t unfolding resume_tasks_def .
  have l: "Limit opt = 0 \<longrightarrow> Total (cap_limit opt r3) = Total r3"
    by (simp add: cap_limit_no_limit)
  have i: "\<forall>g. prepare_total (env\<lparr>pkg_ReadStatistors := g\<rparr>) opt = Ok r3"
    unfolding prepare_total_ignores_snapshots using p by (intro allI)
  from p s m tot l i show ?thesis by (intro exI conjI)
qed

theorem resume_offset_is_offset_plus_reqNumber_witness:
  "(case PrepareRunner
          (example_env [\<lparr> BaseUrl = ''http://a'', Statistor.Offset = 500, ReqNumber = 50 \<rparr>])
          (default_Option\<lparr>ResumeFrom := ''stat.json''\<rparr>)
          :: (string, string) Runner result of
      Ok r \<Rightarrow> Tasks r = [\<lparr> baseUrl = ''http://a'', offset = 550, total = 2, depth = 0 \<rparr>]
             \<and> Total r = 2
    | Error e \<Rightarrow> False
    | Panic m \<Rightarrow> False)
   \<and> (case PrepareRunner
          (example_env [\<lparr> BaseUrl = ''http://a'', Statistor.Offset = 500, ReqNumber = 50 \<rparr>])
          (default_Option\<lparr>ResumeFrom := ''stat.json'', Limit := 1\<rparr>)
          :: (string, string) Runner result of
      Ok r \<Rightarrow> Tasks r = [\<lparr> baseUrl = ''http://a'', offset = 550, total = 1, depth = 0 \<rparr>]
             \<and> Total r = 1
    | Error e \<Rightarrow> False
    | Panic m \<Rightarrow> False)"
proof -
  let ?e = "example_env [\<lparr> BaseUrl = ''http://a'', Statistor.Offset = 500, ReqNumber = 50 \<rparr>]
              :: (string, string) env"
  let ?o1 = "default_Option\<lparr>ResumeFrom := ''stat.json''\<rparr>"
  let ?o2 = "default_Option\<lparr>ResumeFrom := ''stat.json'', Limit := 1\<rparr>"
  have snap: "\<And>f. pkg_ReadStatistors ?e f
                = Inr [\<lparr> BaseUrl = ''http://a'', Statistor.Offset = 500, ReqNumber = 50 \<rparr>]"
    by (simp add: example_env_def)
  have "\<exists>r. PrepareRunner ?e ?o1 = Ok r" by (simp add: run_defs)
  then obtain r1 where r1: "PrepareRunner ?e ?o1 = Ok r1" by (elim exE)
  have "\<exists>r. PrepareRunner ?e ?o2 = Ok r" by (simp add: run_defs)
  then obtain r2 where r2: "PrepareRunner ?e ?o2 = Ok r2" by (elim exE)
  have res1: "ResumeFrom ?o1 \<noteq> []" by simp
  have res2: "ResumeFrom ?o2 \<noteq> []" by simp
  have pt1: "case prepare_total ?e ?o1 of
               Ok r3 \<Rightarrow> Total (cap_limit ?o1 r3) = 2 | Error e \<Rightarrow> False | Panic m \<Rightarrow> False"
    by (simp add: run_defs)
  have pt2: "case prepare_total ?e ?o2 of
               Ok r3 \<Rightarrow> Total (cap_limit ?o2 r3) = 1 | Error e \<Rightarrow> False | Panic m \<Rightarrow> False"
    by (simp add: run_defs)
  from resume_offset_is_offset_plus_reqNumber [OF r1 res1] obtain r3 stats where
    p: "prepare_total ?e ?o1 = Ok r3" and
    s: "pkg_ReadStatistors ?e (ResumeFrom ?o1) = Inr stats" and
    t: "Tasks r1 = map (\<lambda>stat. \<lparr> baseUrl = BaseUrl stat,
                                       offset = Statistor.Offset stat + ReqNumber stat,
                                       total = Total (cap_limit ?o1 r3),
                                       depth = 0 \<rparr>) stats" and
    tot: "Total r1 = Total (cap_limit ?o1 r3)" and
    "Limit ?o1 = 0 \<longrightarrow> Total (cap_limit ?o1 r3) = Total r3" and
    "\<forall>g. prepare_total (?e\<lparr>pkg_ReadStatistors := g\<rparr>) ?o1 = Ok r3"
    by (elim exE conjE)
  from pt1 have c: "Total (cap_limit ?o1 r3) = 2" unfolding p by simp
  from s have st: "stats = [\<lparr> BaseUrl = ''http://a'', Statistor.Offset = 500, ReqNumber = 50 \<rparr>]"
    unfolding snap by simp
  have a1: "Tasks r1 = [\<lparr> baseUrl = ''http://a'', offset = 550, total = 2, depth = 0 \<rparr>]"
    using t unfolding c st by simp
  have b1: "Total r1 = 2" using tot unfolding c .
  from resume_offset_is_offset_plus_reqNumber [OF r2 res2] obtain r3' stats' where
    p': "prepare_total ?e ?o2 = Ok r3'" and
    s': "pkg_ReadStatistors ?e (ResumeFrom ?o2) = Inr stats'" and
    t': "Tasks r2 = map (\<lambda>stat. \<lparr> baseUrl = BaseUrl stat,
                                       offset = Statistor.Offset stat + ReqNumber stat,
                                       total = Total (cap_limit ?o2 r3'),
                                       depth = 0 \<rparr>) stats'" and
    tot': "Total r2 = Total (cap_limit ?o2 r3')" and
    "Limit ?o2 = 0 \<longrightarrow> Total (cap_limit ?o2 r3') = Total r3'" and
    "\<forall>g. prepare_total (?e\<lparr>pkg_ReadStatistors := g\<rparr>) ?o2 = Ok r3'"
    by (elim exE conjE)
  from pt2 have c': "Total (cap_limit ?o2 r3') = 1" unfolding p' by simp
  from s' have st': "stats' = [\<lparr> BaseUrl = ''http://a'', Statistor.Offset = 500, ReqNumber = 50 \<rparr>]"
    unfolding snap by simp
  have a2: "Tasks r2 = [\<lparr> baseUrl = ''http://a'', offset = 550, total = 1, depth = 0 \<rparr>]"
    using t' unfolding c' st' by simp
  have b2: "Total r2 = 1" using tot' unfolding c' .
  show ?thesis unfolding r1 r2 using a1 b1 a2 b2 by simp
qed

text \<open>
  Claim C4 says that snapshots sharing a base URL give one task, from the most recent one.
  The loop has no such step: two snapshots of \<open>http://a\<close> give two tasks of \<open>http://a\<close>,
  the older one first.
\<close>

theorem resume_keeps_snapshots_with_equal_baseUrl:
  "(case PrepareRunner
          (example_env [\<lparr> BaseUrl = ''http://a'', Statistor.Offset = 0, ReqNumber = 10 \<rparr>,
                        \<lparr> BaseUrl = ''http://a'', Statistor.Offset = 500, ReqNumber = 50 \<rparr>])
          (default_Option\<lparr>ResumeFrom := ''stat.json''\<rparr>)
          :: (string, string) Runner result of
      Ok r \<Rightarrow> map baseUrl (Tasks r) = [''http://a'', ''http://a'']
             \<and> map offset (Tasks r) = [10, 550]
             \<and> \<not> distinct (map baseUrl (Tasks r))
    | Error e \<Rightarrow> False
    | Panic m \<Rightarrow> False)"
  by (simp add: run_defs)

text \<open>
  Claim C4 as amended: resume builds exactly one task per snapshot record, with the
  record's base URL, in the order read; so the task list has at most one task per base URL
  exactly when no two snapshot records share one.
\<close>

theorem resume_one_task_per_snapshot:
  assumes "PrepareRunner env opt = Ok r" and "ResumeFrom opt \<noteq> []"
  shows "\<exists>stats. pkg_ReadStatistors env (ResumeFrom opt) = Inr stats
           \<and> length (Tasks r) = length stats
           \<and> map baseUrl (Tasks r) = map BaseUrl stats
           \<and> distinct (map baseUrl (Tasks r)) = distinct (map BaseUrl stats)"
proof -
  from assms obtain stats where
    s: "pkg_ReadStatistors env (ResumeFrom opt) = Inr stats" and
    t: "Tasks r = resume_tasks (Total r) stats"
    by (rule PrepareRunner_resume)
  have m: "map baseUrl (Tasks r) = map BaseUrl stats"
    unfolding t resume_tasks_def by (simp add: comp_def)
  have l: "length (Tasks r) = length stats"
    unfolding t resume_tasks_def by simp
  have d: "distinct (map baseUrl (Tasks r)) = distinct (map BaseUrl stats)"
    unfolding m ..
  from s l m d show ?thesis by (intro exI conjI)
qed

theorem resume_one_task_per_snapshot_witness:
  "(case PrepareRunner
          (example_env [\<lparr> BaseUrl = ''http://a'', Statistor.Offset = 0, ReqNumber = 10 \<rparr>,
                        \<lparr> BaseUrl = ''http://b'', Statistor.Offset = 500, ReqNumber = 50 \<rparr>])
          (default_Option\<lparr>ResumeFrom := ''stat.json''\<rparr>)
          :: (string, string) Runner result of
      Ok r \<Rightarrow> length (Tasks r) = 2
             \<and> map baseUrl (Tasks r) = [''http://a'', ''http://b'']
             \<and> distinct (map baseUrl (Tasks r))
    | Error e \<Rightarrow> False
    | Panic m \<Rightarrow> False)"
proof -
  have "\<exists>r. PrepareRunner
          (example_env [\<lparr> BaseUrl = ''http://a'', Statistor.Offset = 0, ReqNumber = 10 \<rparr>,
                        \<lparr> BaseUrl = ''http://b'', Statistor.Offset = 500, ReqNumber = 50 \<rparr>])
          (default_Option\<lparr>ResumeFrom := ''stat.json''\<rparr>)
        = (Ok r :: (string, string) Runner result)"
    by (simp add: run_defs)
  then obtain r :: "(string, string) Runner" where
    r: "PrepareRunner
          (example_env [\<lparr> BaseUrl = ''http://a'', Statistor.Offset = 0, ReqNumber = 10 \<rparr>,
                        \<lparr> BaseUrl = ''http://b'', Statistor.Offset = 500, ReqNumber = 50 \<rparr>])
          (default_Option\<lparr>ResumeFrom := ''stat.json''\<rparr>) = Ok r"
    by (elim exE)
  have res: "ResumeFrom (default_Option\<lparr>ResumeFrom := ''stat.json''\<rparr>) \<noteq> []" by simp
  from resume_one_task_per_snapshot [OF r res] obtain stats where
    s: "pkg_ReadStatistors
          (example_env [\<lparr> BaseUrl = ''http://a'', Statistor.Offset = 0, ReqNumber = 10 \<rparr>,
                        \<lparr> BaseUrl = ''http://b'', Statistor.Offset = 500, ReqNumber = 50 \<rparr>]
             :: (string, string) env)
          (ResumeFrom (default_Option\<lparr>ResumeFrom := ''stat.json''\<rparr>)) = Inr stats" and
    l: "length (Tasks r) = length stats" and
    m: "map baseUrl (Tasks r) = map BaseUrl stats"
    by (elim exE conjE)
  from s have "stats = [\<lparr> BaseUrl = ''http://a'', Statistor.Offset = 0, ReqNumber = 10 \<rparr>,
                        \<lparr> BaseUrl = ''http://b'', Statistor.Offset = 500, ReqNumber = 50 \<rparr>]"
    by (simp add: example_env_def)
  with l m have "length (Tasks r) = 2
             \<and> map baseUrl (Tasks r) = [''http://a'', ''http://b'']
             \<and> distinct (map baseUrl (Tasks r))"
    by simp
  then show ?thesis unfolding r by simp
qed

section \<open>The declared total\<close>

lemma prepare_total_Validate:
  assumes "prepare_total env opt = Ok r3"
  shows "Validate opt"
  using assms unfolding prepare_total_def by (cases "Validate opt") simp_all

text \<open>
  Claim C2. For every configuration that PrepareRunner accepts, the total set at lines 252
  to 256, before the limit is applied, is \<open>len(wordlist) * len(rules)\<close> when there is a
  rule and \<open>len(wordlist)\<close> when there is none: the word count times the larger of the
  rule count and 1, as a Go \<open>int\<close>, and as a number when the product fits one. The word
  list and the rules of the result are those of that moment, and without a limit and
  outside check-only mode the total of the result is that total. The bound on the number of
  rules holds of every Go slice.
\<close>

theorem declared_total_is_words_times_rules:
  assumes ok: "PrepareRunner env opt = Ok r" and len: "length (Rules r) < 2 ^ 63"
  shows "\<exists>r3. prepare_total env opt = Ok r3
           \<and> Wordlist r3 = Wordlist r \<and> Rules r3 = Rules r
           \<and> Total r3 = (if Rules r \<noteq> [] then go_len (Wordlist r) * go_len (Rules r)
                         else go_len (Wordlist r))
           \<and> Total r3 = of_nat (length (Wordlist r) * max (length (Rules r)) 1)
           \<and> (length (Wordlist r) * max (length (Rules r)) 1 < 2 ^ 63 \<longrightarrow>
                sint (Total r3) = int (length (Wordlist r) * max (length (Rules r)) 1))
           \<and> (Limit opt = 0 \<and> (ResumeFrom opt \<noteq> [] \<or> \<not> Option.CheckOnly opt) \<longrightarrow>
                Total r = Total r3)"
proof -
  from ok obtain r3 r4 where
    t: "prepare_total env opt = Ok r3" and
    k: "prepare_tasks env opt (cap_limit opt r3) = Ok r4" and
    tr: "Total r = Total r4" and
    w: "Wordlist r = Wordlist r3" and rs: "Rules r = Rules r3" and
    tot: "Total r3 = go_len (Wordlist r3) * (if 0 <s go_len (Rules r3) then go_len (Rules r3) else 1)"
    by (rule PrepareRunner_fields)
  from len have pos: "(0 <s go_len (Rules r)) = (Rules r \<noteq> [])"
    by (rule go_len_positive)
  have a: "Total r3 = (if Rules r \<noteq> [] then go_len (Wordlist r) * go_len (Rules r)
                         else go_len (Wordlist r))"
    using tot pos unfolding w rs by simp
  have m: "max (length (Rules r)) 1 = (if Rules r \<noteq> [] then length (Rules r) else 1)"
    by (cases "Rules r") simp_all
  have b: "Total r3 = of_nat (length (Wordlist r) * max (length (Rules r)) 1)"
    unfolding a m by (simp add: go_len_def)
  have c: "length (Wordlist r) * max (length (Rules r)) 1 < 2 ^ 63 \<longrightarrow>
             sint (Total r3) = int (length (Wordlist r) * max (length (Rules r)) 1)"
    unfolding b by (intro impI) (rule sint_of_nat_small)
  have d: "Limit opt = 0 \<and> (ResumeFrom opt \<noteq> [] \<or> \<not> Option.CheckOnly opt) \<longrightarrow>
             Total r = Total r3"
  proof (intro impI, elim conjE)
    assume l: "Limit opt = 0" and c: "ResumeFrom opt \<noteq> [] \<or> \<not> Option.CheckOnly opt"
    from k c have "Total r4 = Total (cap_limit opt r3)" by (rule prepare_tasks_Total)
    with l tr show "Total r = Total r3" by (simp add: cap_limit_no_limit)
  qed
  from t w [symmetric] rs [symmetric] a b c d show ?thesis by (intro exI conjI)
qed

theorem declared_total_is_words_times_rules_witness:
  "(case PrepareRunner (example_env [])
           (default_Option\<lparr>URL := ''http://a'', Option.Rules := Some [''a.rule'', ''b.rule'']\<rparr>)
          :: (string, string) Runner result of
      Ok r \<Rightarrow> length (Wordlist r) = 2 \<and> length (Rules r) = 2 \<and> Total r = 4
    | Error e \<Rightarrow> False
    | Panic m \<Rightarrow> False)
   \<and> (case PrepareRunner (example_env []) (default_Option\<lparr>URL := ''http://a''\<rparr>)
          :: (string, string) Runner result of
      Ok r \<Rightarrow> length (Wordlist r) = 2 \<and> length (Rules r) = 0 \<and> Total r = 2
    | Error e \<Rightarrow> False
    | Panic m \<Rightarrow> False)"
proof -
  let ?o1 = "default_Option\<lparr>URL := ''http://a'', Option.Rules := Some [''a.rule'', ''b.rule'']\<rparr>"
  let ?o2 = "default_Option\<lparr>URL := ''http://a''\<rparr>"
  let ?e = "example_env [] :: (string, string) env"
  have "case PrepareRunner ?e ?o1 of
          Ok r \<Rightarrow> length (Wordlist r) = 2 \<and> length (Rules r) = 2
        | Error e \<Rightarrow> False | Panic m \<Rightarrow> False"
    by (simp add: run_defs)
  then obtain r1 where r1: "PrepareRunner ?e ?o1 = Ok r1"
    and w1: "length (Wordlist r1) = 2" and l1: "length (Rules r1) = 2"
    by (cases "PrepareRunner ?e ?o1") simp_all
  have "case PrepareRunner ?e ?o2 of
          Ok r \<Rightarrow> length (Wordlist r) = 2 \<and> length (Rules r) = 0
        | Error e \<Rightarrow> False | Panic m \<Rightarrow> False"
    by (simp add: run_defs)
  then obtain r2 where r2: "PrepareRunner ?e ?o2 = Ok r2"
    and w2: "length (Wordlist r2) = 2" and l2: "length (Rules r2) = 0"
    by (cases "PrepareRunner ?e ?o2") simp_all
  have b1: "length (Rules r1) < 2 ^ 63" unfolding l1 by simp
  have b2: "length (Rules r2) < 2 ^ 63" unfolding l2 by simp
  from declared_total_is_words_times_rules [OF r1 b1] obtain r3 where
    "prepare_total ?e ?o1 = Ok r3" and
    "Wordlist r3 = Wordlist r1" and "Rules r3 = Rules r1" and
    "Total r3 = (if Rules r1 \<noteq> [] then go_len (Wordlist r1) * go_len (Rules r1)
                         else go_len (Wordlist r1))" and
    "Total r3 = of_nat (length (Wordlist r1) * max (length (Rules r1)) 1)" and
    "length (Wordlist r1) * max (length (Rules r1)) 1 < 2 ^ 63 \<longrightarrow>
                sint (Total r3) = int (length (Wordlist r1) * max (length (Rules r1)) 1)" and
    "Limit ?o1 = 0 \<and> (ResumeFrom ?o1 \<noteq> [] \<or> \<not> Option.CheckOnly ?o1) \<longrightarrow> Total r1 = Total r3"
    by (elim exE conjE)
  then have t1: "Total r1 = 4" unfolding w1 l1 by (simp add: default_Option_def)
  from declared_total_is_words_times_rules [OF r2 b2] obtain r3' where
    "prepare_total ?e ?o2 = Ok r3'" and
    "Wordlist r3' = Wordlist r2" and "Rules r3' = Rules r2" and
    "Total r3' = (if Rules r2 \<noteq> [] then go_len (Wordlist r2) * go_len (Rules r2)
                         else go_len (Wordlist r2))" and
    "Total r3' = of_nat (length (Wordlist r2) * max (length (Rules r2)) 1)" and
    "length (Wordlist r2) * max (length (Rules r2)) 1 < 2 ^ 63 \<longrightarrow>
                sint (Total r3') = int (length (Wordlist r2) * max (length (Rules r2)) 1)" and
    "Limit ?o2 = 0 \<and> (ResumeFrom ?o2 \<noteq> [] \<or> \<not> Option.CheckOnly ?o2) \<longrightarrow> Total r2 = Total r3'"
    by (elim exE conjE)
  then have t2: "Total r2 = 2" unfolding w2 l2 by (simp add: default_Option_def)
  show ?thesis unfolding r1 r2 using w1 l1 t1 w2 l2 t2 by simp
qed

section \<open>The exclude-extension decorator\<close>

text \<open>
  Claim C6. With a non-empty exclude-extension option, the decorator list of an accepted
  configuration holds the exclude closure after the case transform and the remove closure
  (where present) and before the replace closure; on every candidate it returns the empty
  string when the parsed extension is in the exclude list, and the candidate otherwise.
\<close>

theorem exclude_extension_decorator_drops_listed:
  assumes ok: "PrepareRunner env opt = Ok r" and ex: "ExcludeExtensions opt \<noteq> []"
  shows "\<exists>pre f post. Fns r = pre @ f # post
           \<and> length pre = (if Uppercase opt \<or> Lowercase opt then 1 else 0)
                          + (if RemoveExtensions opt \<noteq> [] then 1 else 0)
           \<and> length post = (if Replaces opt \<noteq> [] then 1 else 0)
           \<and> (\<forall>s. f s = (if parseExtension s
                                  \<in> set (strings_Split (ExcludeExtensions opt) (CHR '',''))
                             then [] else s))"
proof -
  from ok obtain r3 r4 where
    t: "prepare_total env opt = Ok r3" and
    fns: "Fns r = Fns (prepare_fns env opt (new_Runner opt))"
    by (rule PrepareRunner_fields)
  from t have "Validate opt" by (rule prepare_total_Validate)
  then have v: "\<not> (Uppercase opt \<and> Lowercase opt)"
    unfolding Validate_def by (cases "Uppercase opt \<and> Lowercase opt") simp_all
  let ?pre = "(if Uppercase opt then [strings_ToUpper env] else [])
          @ (if Lowercase opt then [strings_ToLower env] else [])
          @ (if RemoveExtensions opt \<noteq> []
             then [remove_extension_fn (strings_Split (ExcludeExtensions opt) (CHR '',''))]
             else [])"
  let ?f = "exclude_extension_fn (strings_Split (ExcludeExtensions opt) (CHR '',''))"
  let ?post = "if 0 < length (Replaces opt) then [replace_fn env (Replaces opt)] else []"
  have new: "Fns (new_Runner opt :: ('a, 'b) Runner) = []" by (simp add: new_Runner_def)
  have 1: "Fns r = ?pre @ ?f # ?post"
    unfolding fns using ex by (simp add: prepare_fns_def new)
  have 2: "length ?pre = (if Uppercase opt \<or> Lowercase opt then 1 else 0)
                          + (if RemoveExtensions opt \<noteq> [] then 1 else 0)"
    using v by simp
  have 3: "length ?post = (if Replaces opt \<noteq> [] then 1 else 0)" by simp
  have 4: "\<forall>s. ?f s = (if parseExtension s
                                  \<in> set (strings_Split (ExcludeExtensions opt) (CHR '',''))
                             then [] else s)"
    by (intro allI) (rule exclude_extension_fn_eq)
  from 1 2 3 4 show ?thesis by (intro exI conjI)
qed

theorem exclude_extension_decorator_drops_listed_witness:
  "(case PrepareRunner (example_env [])
           (default_Option\<lparr>URL := ''http://a'', ExcludeExtensions := ''php,bak'',
               Uppercase := True\<rparr>)
          :: (string, string) Runner result of
      Ok r \<Rightarrow> length (Fns r) = 2
             \<and> (Fns r ! 1) ''index.php'' = []
             \<and> (Fns r ! 1) ''old.tar.bak'' = ''old.tar.bak''
             \<and> (Fns r ! 1) ''admin'' = ''admin''
    | Error e \<Rightarrow> False
    | Panic m \<Rightarrow> False)"
proof -
  let ?o = "default_Option\<lparr>URL := ''http://a'', ExcludeExtensions := ''php,bak'',
               Uppercase := True\<rparr>"
  let ?e = "example_env [] :: (string, string) env"
  have "\<exists>r. PrepareRunner ?e ?o = Ok r" by (simp add: run_defs)
  then obtain r where r: "PrepareRunner ?e ?o = Ok r" by (elim exE)
  have ex: "ExcludeExtensions ?o \<noteq> []" by simp
  from exclude_extension_decorator_drops_listed [OF r ex] obtain pre f post where
    fns: "Fns r = pre @ f # post" and
    pre: "length pre = (if Uppercase ?o \<or> Lowercase ?o then 1 else 0)
                          + (if RemoveExtensions ?o \<noteq> [] then 1 else 0)" and
    post: "length post = (if Replaces ?o \<noteq> [] then 1 else 0)" and
    f: "\<forall>s. f s = (if parseExtension s \<in> set (strings_Split (ExcludeExtensions ?o) (CHR '',''))
                     then [] else s)"
    by (elim exE conjE)
  from pre have lp: "length pre = 1" by (simp add: default_Option_def)
  from post have lq: "length post = 0" by (simp add: default_Option_def)
  from fns lp lq have n: "length (Fns r) = 2" by simp
  from fns lp have g: "Fns r ! 1 = f" by (metis nth_append_length)
  have s: "strings_Split (ExcludeExtensions ?o) (CHR '','') = [''php'', ''bak'']" by simp
  have a: "f ''index.php'' = []" using f unfolding s by (simp add: parseExtension_def)
  have b: "f ''old.tar.bak'' = ''old.tar.bak''" using f unfolding s by (simp add: parseExtension_def)
  have c: "f ''admin'' = ''admin''" using f unfolding s by (simp add: parseExtension_def)
  show ?thesis unfolding r using n g a b c by simp
qed

subsection \<open>The list that the remove closure reads\<close>

text \<open>
  In every accepted configuration with a non-empty remove-extension option, the remove
  closure looks the extension up in the pieces of \<open>opt.ExcludeExtensions\<close>; the content of
  \<open>opt.RemoveExtensions\<close> has no part in what it returns.
\<close>

lemma remove_extension_decorator_list:
  assumes ok: "PrepareRunner env opt = Ok r" and re: "RemoveExtensions opt \<noteq> []"
  shows "\<exists>pre f post. Fns r = pre @ f # post
           \<and> length pre = (if Uppercase opt \<or> Lowercase opt then 1 else 0)
           \<and> (\<forall>s. f s = (if parseExtension s
                                  \<in> set (strings_Split (ExcludeExtensions opt) (CHR '',''))
                             then strings_TrimSuffix s (CHR ''.'' # parseExtension s)
                             else s))"
proof -
  from ok obtain r3 r4 where
    t: "prepare_total env opt = Ok r3" and
    fns: "Fns r = Fns (prepare_fns env opt (new_Runner opt))"
    by (rule PrepareRunner_fields)
  from t have "Validate opt" by (rule prepare_total_Validate)
  then have v: "\<not> (Uppercase opt \<and> Lowercase opt)"
    unfolding Validate_def by (cases "Uppercase opt \<and> Lowercase opt") simp_all
  let ?pre = "(if Uppercase opt then [strings_ToUpper env] else [])
          @ (if Lowercase opt then [strings_ToLower env] else [])"
  let ?f = "remove_extension_fn (strings_Split (ExcludeExtensions opt) (CHR '',''))"
  let ?post = "(if ExcludeExtensions opt \<noteq> []
             then [exclude_extension_fn (strings_Split (ExcludeExtensions opt) (CHR '',''))]
             else [])
          @ (if 0 < length (Replaces opt) then [replace_fn env (Replaces opt)] else [])"
  have new: "Fns (new_Runner opt :: ('a, 'b) Runner) = []" by (simp add: new_Runner_def)
  have 1: "Fns r = ?pre @ ?f # ?post"
    unfolding fns using re by (simp add: prepare_fns_def new)
  have 2: "length ?pre = (if Uppercase opt \<or> Lowercase opt then 1 else 0)"
    using v by simp
  have 3: "\<forall>s. ?f s = (if parseExtension s
                                  \<in> set (strings_Split (ExcludeExtensions opt) (CHR '',''))
                             then strings_TrimSuffix s (CHR ''.'' # parseExtension s)
                             else s)"
    by (intro allI) (rule remove_extension_fn_eq)
  from 1 2 3 show ?thesis by (intro exI conjI)
qed

section \<open>Expressions that do not compile\<close>

text \<open>
  Before the expressions are compiled, only the loop over \<open>opt.Extracts\<close> can panic.
\<close>

lemma bind_result_no_panic:
  assumes "m \<noteq> Panic p" and "\<And>x. f x \<noteq> Panic p"
  shows "bind_result m f \<noteq> Panic p"
  using assms by (cases m) simp_all

lemma lift_sum_no_panic: "lift_sum x \<noteq> Panic p"
  by (cases x) simp_all

lemma range_collect_no_panic:
  assumes "\<And>x. f x \<noteq> Panic p"
  shows "range_collect f xs \<noteq> Panic p"
proof (induction xs)
  case Nil
  show ?case by simp
next
  case (Cons x xs)
  have "bind_result (f x) (\<lambda>y. bind_result (range_collect f xs) (\<lambda>ys. Ok (y # ys))) \<noteq> Panic p"
  proof (rule bind_result_no_panic)
    show "f x \<noteq> Panic p" by (rule assms)
    fix y
    show "bind_result (range_collect f xs) (\<lambda>ys. Ok (y # ys)) \<noteq> Panic p"
      by (rule bind_result_no_panic) (rule Cons.IH, simp)
  qed
  then show ?case by simp
qed

lemma load_templates_no_panic: "load_templates env \<noteq> Panic p"
  by (cases "pkg_LoadTemplates env") (simp_all add: load_templates_def)

lemma prepare_extracts_no_panic:
  assumes "\<forall>e \<in> set es. fingers_PresetExtracts env e \<or> regexp_valid env e"
  shows "prepare_extracts env es = Ok ()"
  using assms by (induction es) auto

lemma parse_status_no_panic: "parse_status s \<noteq> Panic p"
proof (cases "s = []")
  case True
  then show ?thesis by (simp add: parse_status_def)
next
  case False
  have "range_collect (\<lambda>x. lift_sum (strconv_Atoi x)) (strings_Split s (CHR '','')) \<noteq> Panic p"
    by (rule range_collect_no_panic) (rule lift_sum_no_panic)
  with False show ?thesis by (simp add: parse_status_def)
qed

lemma prepare_status_no_panic: "prepare_status opt \<noteq> Panic p"
  unfolding prepare_status_def
  by (intro bind_result_no_panic parse_status_no_panic) simp

lemma loadFileToSlice_no_panic: "loadFileToSlice env f \<noteq> Panic p"
  unfolding loadFileToSlice_def
  by (intro bind_result_no_panic lift_sum_no_panic) simp

lemma prepare_wordlist_no_panic: "prepare_wordlist env opt r \<noteq> Panic p"
  unfolding prepare_wordlist_def Let_def
  by (intro bind_result_no_panic range_collect_no_panic loadFileToSlice_no_panic
        lift_sum_no_panic) simp

lemma prepare_rules_no_panic: "prepare_rules env opt r \<noteq> Panic p"
proof (cases "Option.Rules opt")
  case None
  then show ?thesis by (simp add: prepare_rules_def)
next
  case (Some fs)
  have "bind_result (range_collect (\<lambda>f. lift_sum (ioutil_ReadFile env f)) fs) (\<lambda>contents.
            Ok (r\<lparr> Rules := rule_Compile env (concat (map (\<lambda>c. c @ [CHR 0x0A]) contents))
                                (FilterRule opt) \<rparr>)) \<noteq> Panic p"
    by (intro bind_result_no_panic range_collect_no_panic lift_sum_no_panic) simp
  with Some show ?thesis by (simp add: prepare_rules_def)
qed

lemma prepare_total_no_panic:
  assumes "\<forall>e \<in> set (Extracts opt). fingers_PresetExtracts env e \<or> regexp_valid env e"
  shows "prepare_total env opt \<noteq> Panic p"
proof (cases "Validate opt")
  case False
  then show ?thesis by (simp add: prepare_total_def)
next
  case True
  from assms have x: "prepare_extracts env (Extracts opt) = Ok ()"
    by (rule prepare_extracts_no_panic)
  have "bind_result (load_templates env) (\<lambda>_.
           bind_result (prepare_extracts env (Extracts opt)) (\<lambda>_.
           bind_result (prepare_status opt) (\<lambda>_.
           bind_result (prepare_wordlist env opt (set_force env opt (new_Runner opt))) (\<lambda>r1.
           bind_result (prepare_rules env opt r1) (\<lambda>r2.
             Ok (declared_total r2)))))) \<noteq> Panic p"
    unfolding x
    by (intro bind_result_no_panic load_templates_no_panic prepare_status_no_panic
          prepare_wordlist_no_panic prepare_rules_no_panic) simp_all
  with True show ?thesis by (simp add: prepare_total_def)
qed

lemma open_input_no_panic: "open_input env opt \<noteq> Panic p"
proof -
  have "bind_result (lift_sum (os_Open env (URLFile opt))) (\<lambda>f. Ok (Some f)) \<noteq> Panic p"
    by (intro bind_result_no_panic lift_sum_no_panic) simp
  then show ?thesis by (simp add: open_input_def)
qed

lemma tasks_from_input_no_panic: "tasks_from_input env opt r \<noteq> Panic p"
  unfolding tasks_from_input_def Let_def
proof (intro bind_result_no_panic open_input_no_panic)
  fix inp :: "os_File option"
  fix t0 :: "Task list" and g :: "string \<Rightarrow> Task"
  show "(case inp of None \<Rightarrow> Ok t0
         | Some f \<Rightarrow> bind_result (lift_sum (ioutil_ReadAll env f)) (\<lambda>content.
             Ok (t0 @ map g (strings_Split (strings_TrimSpace env content) (CHR 0x0A)))))
        \<noteq> Panic p"
  proof (cases inp)
    case None
    then show ?thesis by simp
  next
    case (Some f)
    have "bind_result (lift_sum (ioutil_ReadAll env f)) (\<lambda>content.
             Ok (t0 @ map g (strings_Split (strings_TrimSpace env content) (CHR 0x0A))))
          \<noteq> Panic p"
      by (intro bind_result_no_panic lift_sum_no_panic) simp
    with Some show ?thesis by simp
  qed
next
  fix x :: "os_File option" and xa :: "Task list"
  show "Ok (if Option.CheckOnly opt
            then r\<lparr>Tasks := xa, URLList := if URL opt \<noteq> [] then [URL opt] else [],
                   Total := go_len (if URL opt \<noteq> [] then [URL opt] else [])\<rparr>
            else r\<lparr>Tasks := xa\<rparr>) \<noteq> Panic p"
    by simp
qed

lemma prepare_tasks_no_panic: "prepare_tasks env opt r \<noteq> Panic p"
proof (cases "ResumeFrom opt = []")
  case True
  then show ?thesis by (simp add: prepare_tasks_def tasks_from_input_no_panic)
next
  case False
  have "tasks_from_resume env opt r \<noteq> Panic p"
    unfolding tasks_from_resume_def
    by (intro bind_result_no_panic lift_sum_no_panic) simp
  with False show ?thesis by (simp add: prepare_tasks_def)
qed

text \<open>A configured expression that does not compile.\<close>

lemma compile_match_fails:
  assumes "Match opt \<noteq> []" and "expr_Compile env (Match opt) = Inl e"
  shows "compile_match env opt r = Error e"
  using assms by (simp add: compile_match_def)

lemma compile_filter_fails:
  assumes "Filter opt \<noteq> []" and "expr_Compile env (Filter opt) = Inl e"
  shows "compile_filter env opt r = Error e"
  using assms by (simp add: compile_filter_def)

lemma compile_recursive_fails:
  assumes "expr_Compile env (Recursive opt) = Inl e"
  shows "compile_recursive env opt r = Error e"
  using assms by (simp add: compile_recursive_def)

lemma compile_match_no_panic: "compile_match env opt r \<noteq> Panic p"
proof -
  have "bind_result (lift_sum (expr_Compile env (Match opt))) (\<lambda>exp.
             Ok (r\<lparr> MatchExpr := Some exp \<rparr>)) \<noteq> Panic p"
    by (intro bind_result_no_panic lift_sum_no_panic) simp
  then show ?thesis by (simp add: compile_match_def)
qed

lemma compile_filter_no_panic: "compile_filter env opt r \<noteq> Panic p"
proof -
  have "bind_result (lift_sum (expr_Compile env (Filter opt))) (\<lambda>exp.
             Ok (r\<lparr> FilterExpr := Some exp \<rparr>)) \<noteq> Panic p"
    by (intro bind_result_no_panic lift_sum_no_panic) simp
  then show ?thesis by (simp add: compile_filter_def)
qed

lemma prepare_exprs_fails:
  assumes "(Match opt \<noteq> [] \<and> (\<exists>e. expr_Compile env (Match opt) = Inl e))
         \<or> (Filter opt \<noteq> [] \<and> (\<exists>e. expr_Compile env (Filter opt) = Inl e))
         \<or> (\<exists>e. expr_Compile env (Recursive opt) = Inl e)"
  shows "\<exists>e. prepare_exprs env opt r = Error e"
proof (cases "compile_match env opt r")
  case (Error e)
  then have "prepare_exprs env opt r = Error e" by (simp add: prepare_exprs_def)
  then show ?thesis by (rule exI)
next
  case (Panic p)
  with compile_match_no_panic show ?thesis by blast
next
  case (Ok r1)
  note m = Ok
  show ?thesis
  proof (cases "compile_filter env opt r1")
    case (Error e)
    with m have "prepare_exprs env opt r = Error e" by (simp add: prepare_exprs_def)
    then show ?thesis by (rule exI)
  next
    case (Panic p)
    with compile_filter_no_panic show ?thesis by blast
  next
    case (Ok r2)
    note f = Ok
    from assms consider
      (a) e where "Match opt \<noteq> []" "expr_Compile env (Match opt) = Inl e"
    | (b) e where "Filter opt \<noteq> []" "expr_Compile env (Filter opt) = Inl e"
    | (c) e where "expr_Compile env (Recursive opt) = Inl e"
      by blast
    then show ?thesis
    proof cases
      case a
      then have "compile_match env opt r = Error e" by (rule compile_match_fails)
      with m show ?thesis by simp
    next
      case b
      then have "compile_filter env opt r1 = Error e" by (rule compile_filter_fails)
      with f show ?thesis by simp
    next
      case c
      then have "compile_recursive env opt r2 = Error e" by (rule compile_recursive_fails)
      with m f have "prepare_exprs env opt r = Error e" by (simp add: prepare_exprs_def)
      then show ?thesis by (rule exI)
    qed
  qed
qed

text \<open>
  With extract patterns that parse, a configured expression that does not compile makes
  PrepareRunner return an error.
\<close>

lemma compile_failure_is_setup_error:
  assumes extracts: "\<forall>e \<in> set (Extracts opt). fingers_PresetExtracts env e \<or> regexp_valid env e"
    and fails: "(Match opt \<noteq> [] \<and> (\<exists>e. expr_Compile env (Match opt) = Inl e))
         \<or> (Filter opt \<noteq> [] \<and> (\<exists>e. expr_Compile env (Filter opt) = Inl e))
         \<or> (\<exists>e. expr_Compile env (Recursive opt) = Inl e)"
  shows "\<exists>e. PrepareRunner env opt = Error e"
proof (cases "prepare_total env opt")
  case (Error e)
  then have "PrepareRunner env opt = Error e" by (simp add: PrepareRunner_def)
  then show ?thesis by (rule exI)
next
  case (Panic p)
  with prepare_total_no_panic [OF extracts] show ?thesis by blast
next
  case (Ok r3)
  note t = Ok
  show ?thesis
  proof (cases "prepare_tasks env opt (cap_limit opt r3)")
    case (Error e)
    with t have "PrepareRunner env opt = Error e" by (simp add: PrepareRunner_def)
    then show ?thesis by (rule exI)
  next
    case (Panic p)
    with prepare_tasks_no_panic show ?thesis by blast
  next
    case (Ok r4)
    from prepare_exprs_fails [OF fails, of "prepare_fns env opt r4"] obtain e where
      "prepare_exprs env opt (prepare_fns env opt r4) = Error e" by (elim exE)
    with t Ok have "PrepareRunner env opt = Error e" by (simp add: PrepareRunner_def)
    then show ?thesis by (rule exI)
  qed
qed

text \<open>
  Whatever the extract patterns are, a configured expression that does not compile keeps
  PrepareRunner from returning a runner.
\<close>

lemma compile_failure_never_accepted:
  assumes fails: "(Match opt \<noteq> [] \<and> (\<exists>e. expr_Compile env (Match opt) = Inl e))
         \<or> (Filter opt \<noteq> [] \<and> (\<exists>e. expr_Compile env (Filter opt) = Inl e))
         \<or> (\<exists>e. expr_Compile env (Recursive opt) = Inl e)"
  shows "PrepareRunner env opt \<noteq> Ok r"
proof
  assume "PrepareRunner env opt = Ok r"
  then obtain r3 where
    "bind_result (prepare_tasks env opt (cap_limit opt r3)) (\<lambda>r4.
       bind_result (prepare_exprs env opt (prepare_fns env opt r4)) (\<lambda>r5.
       bind_result (prepare_headers (Option.Headers opt) r5) (\<lambda>r6.
         prepare_output env opt r6))) = Ok r"
    unfolding PrepareRunner_def by (rule bind_result_OkE)
  then obtain r4 where
    "bind_result (prepare_exprs env opt (prepare_fns env opt r4)) (\<lambda>r5.
       bind_result (prepare_headers (Option.Headers opt) r5) (\<lambda>r6.
         prepare_output env opt r6)) = Ok r"
    by (rule bind_result_OkE)
  then obtain r5 where ok: "prepare_exprs env opt (prepare_fns env opt r4) = Ok r5"
    by (rule bind_result_OkE)
  from prepare_exprs_fails [OF fails, of "prepare_fns env opt r4"] obtain e where
    "prepare_exprs env opt (prepare_fns env opt r4) = Error e" by (elim exE)
  with ok show False by simp
qed

text \<open>
  Claim C7, at a configuration whose match expression does not compile and whose
  \<open>--extract\<close> pattern \<open>"("\<close> is neither a preset nor a regular expression that parses.
  The claim says that PrepareRunner returns an error there. \<open>regexp.MustCompile\<close> at line
  129 panics before any expression is compiled, so PrepareRunner returns no error. Without
  the pattern, the same configuration returns the error of \<open>expr.Compile\<close>.
\<close>

theorem compile_failure_after_bad_extract_panics:
  "Match (default_Option\<lparr>URL := ''http://a'', Match := ''('', Extracts := [''('']\<rparr>) \<noteq> []
   \<and> expr_Compile (example_env [] :: (string, string) env)
        (Match (default_Option\<lparr>URL := ''http://a'', Match := ''('', Extracts := [''('']\<rparr>))
       = Inl (external ''unexpected token'')
   \<and> PrepareRunner (example_env [])
        (default_Option\<lparr>URL := ''http://a'', Match := ''('', Extracts := [''('']\<rparr>)
       = (Panic ''regexp: Compile'' :: (string, string) Runner result)
   \<and> (\<nexists>e. PrepareRunner (example_env [])
        (default_Option\<lparr>URL := ''http://a'', Match := ''('', Extracts := [''('']\<rparr>)
       = (Error e :: (string, string) Runner result))
   \<and> PrepareRunner (example_env [])
        (default_Option\<lparr>URL := ''http://a'', Match := ''(''\<rparr>)
       = (Error (external ''unexpected token'') :: (string, string) Runner result)"
  by (simp add: run_defs)

end
